theory Spec2Isabelle
  imports Complex_Main "HOL-Library.Multiset"
begin

section \<open>Errors\<close>

text \<open>
  The exceptions the toolbox can raise, by their Python class. The key of a
  \<open>KeyError\<close> is the column that was looked up. The specification has its own names
  for them: \<open>InvalidAxisError\<close> is the \<open>ValueError\<close> of \<open>sort_river_nodes\<close>,
  \<open>MissingColumnError\<close> the \<open>KeyError\<close> of a column lookup, \<open>InvalidStrideError\<close> what a
  stride raises in \<open>np.arange\<close> or in a slice, and \<open>OutOfRangeError\<close> the \<open>IndexError\<close>
  of an index out of range.
\<close>

datatype error = ValueError | KeyError string | IndexError | ZeroDivisionError | AttributeError

definition bind :: "error + 'a \<Rightarrow> ('a \<Rightarrow> error + 'b) \<Rightarrow> error + 'b" where
  "bind m f = (case m of Inl e \<Rightarrow> Inl e | Inr x \<Rightarrow> f x)"

section \<open>Time-step selection (\<open>create_subset_nc\<close>, lines 86 to 89)\<close>

text \<open>
  \<open>np.arange(start, stop, step)\<close> on integers: \<open>ceil((stop - start) / step)\<close> values
  \<open>start + i * step\<close>, none when that count is not positive; a zero step raises.
\<close>

definition arange :: "int \<Rightarrow> int \<Rightarrow> int \<Rightarrow> error + int list" where
  "arange start stop step =
     (if step = 0 then Inl ZeroDivisionError
      else Inr (map (\<lambda>i. start + int i * step) [0..<nat (- ((start - stop) div step))]))"

text \<open>
  The slice \<open>xs[::k]\<close>: every \<open>k\<close>-th element from the first one for a positive \<open>k\<close>,
  every \<open>|k|\<close>-th element from the last one backwards for a negative \<open>k\<close>, and
  \<open>ValueError\<close> (slice step cannot be zero) for \<open>k = 0\<close>.
\<close>

definition slice_step :: "'a list \<Rightarrow> int \<Rightarrow> error + 'a list" where
  "slice_step xs k =
     (if k = 0 then Inl ValueError
      else if 0 < k then
        Inr (map (\<lambda>i. xs ! (i * nat k)) [0..<(length xs + nat k - 1) div nat k])
      else
        Inr (map (\<lambda>i. xs ! (length xs - 1 - i * nat (- k)))
               [0..<(length xs + nat (- k) - 1) div nat (- k)]))"

text \<open>
  \<open>len_time\<close> is \<open>len(time)\<close> (the \<open>total\<close> of the specification), \<open>explicit\<close> the
  argument \<open>time_steps\<close> (\<open>None\<close> when absent) and \<open>stride\<close> the argument
  \<open>save_frequency\<close>.
\<close>

definition select_time_steps :: "int \<Rightarrow> int list option \<Rightarrow> int \<Rightarrow> error + int list" where
  "select_time_steps len_time explicit stride =
     (case explicit of
        None \<Rightarrow> arange 0 len_time stride
      | Some time_steps \<Rightarrow> slice_step time_steps stride)"

section \<open>River nodes (\<open>sort_river_nodes\<close>)\<close>

text \<open>
  A \<open>pandas.DataFrame\<close> as its columns in order, each a name and its values. The river
  table has numeric columns only (node numbers, degrees), so a cell is a real number;
  rounding of floating-point numbers is not modelled. Every column of a DataFrame has
  the length of its index, which \<open>wf_frame\<close> states.
\<close>

type_synonym frame = "(string \<times> real list) list"

definition wf_frame :: "nat \<Rightarrow> frame \<Rightarrow> bool" where
  "wf_frame n df = list_all (\<lambda>c. length (snd c) = n) df"

text \<open>\<open>df[c].values\<close>: the values of column \<open>c\<close>, \<open>KeyError\<close> when there is none.\<close>

definition getcol :: "frame \<Rightarrow> string \<Rightarrow> error + real list" where
  "getcol df c = (case map_of df c of None \<Rightarrow> Inl (KeyError c) | Some v \<Rightarrow> Inr v)"

text \<open>\<open>df.take(indexer)\<close>: the rows at the positions \<open>indexer\<close>, in that order.\<close>

definition take_rows :: "nat list \<Rightarrow> frame \<Rightarrow> frame" where
  "take_rows indexer df = map (\<lambda>c. (fst c, map (\<lambda>i. snd c ! i) indexer)) df"

text \<open>
  \<open>df.sort_values(by=c)\<close> takes the rows in the order that the library's \<open>argsort\<close>
  gives for the key column. The call passes no \<open>kind\<close>, so the sort is the library's
  default one; it is a parameter of the embedding, and \<open>argsort_spec\<close> is what the
  library promises for every kind: the positions \<open>0..<n\<close>, each once, ordered by
  ascending key. The order of rows with equal keys is the library's business and
  differs between its builds. \<open>stable_argsort\<close> is the instance that keeps them in
  input order (\<open>kind='stable'\<close>).
\<close>

definition argsort_spec :: "(real list \<Rightarrow> nat list) \<Rightarrow> bool" where
  "argsort_spec argsort \<longleftrightarrow>
     (\<forall>ks. mset (argsort ks) = mset [0..<length ks] \<and> sorted (map (\<lambda>i. ks ! i) (argsort ks)))"

definition stable_argsort :: "real list \<Rightarrow> nat list" where
  "stable_argsort ks = sort_key (\<lambda>i. ks ! i) [0..<length ks]"

text \<open>
  What \<open>kind='stable'\<close> adds: rows with equal keys stay in input order.
\<close>

definition stable_spec :: "(real list \<Rightarrow> nat list) \<Rightarrow> bool" where
  "stable_spec argsort \<longleftrightarrow>
     (\<forall>ks v. filter (\<lambda>i. ks ! i = v) (argsort ks) = filter (\<lambda>i. ks ! i = v) [0..<length ks])"

definition sort_values :: "(real list \<Rightarrow> nat list) \<Rightarrow> string \<Rightarrow> frame \<Rightarrow> error + frame" where
  "sort_values argsort by df =
     (case map_of df by of
        None \<Rightarrow> Inl (KeyError by)
      | Some ks \<Rightarrow> Inr (take_rows (argsort ks) df))"

text \<open>
  \<open>geodesic(p, q).meters\<close> of geopy for two (latitude, longitude) points: each point is
  checked first, and a latitude outside \<open>[-90, 90]\<close> is a \<open>ValueError\<close> (a longitude is
  wrapped into range, not refused). The distance itself, \<open>geodesic\<close>, is a parameter.
\<close>

definition valid_latitude :: "real \<Rightarrow> bool" where
  "valid_latitude lat \<longleftrightarrow> \<bar>lat\<bar> \<le> 90"

definition geodesic_meters ::
  "(real \<times> real \<Rightarrow> real \<times> real \<Rightarrow> real) \<Rightarrow> real \<times> real \<Rightarrow> real \<times> real \<Rightarrow> error + real"
where
  "geodesic_meters geodesic p q =
     (if valid_latitude (fst p) \<and> valid_latitude (fst q) then Inr (geodesic p q)
      else Inl ValueError)"

text \<open>
  The loop of lines 42 to 45, \<open>for rr in range(len(n) - 1, 0, -1)\<close>, started at
  \<open>rr = len(n) - 1\<close>: each pass stores the distance between rows \<open>rr\<close> and \<open>rr - 1\<close>
  in slot \<open>rr - 1\<close>; the first pass that raises ends the run.
\<close>

fun distance_loop ::
  "(real \<times> real \<Rightarrow> real \<times> real \<Rightarrow> real) \<Rightarrow> real list \<Rightarrow> real list \<Rightarrow> nat \<Rightarrow> real list
     \<Rightarrow> error + real list"
where
  "distance_loop geodesic x y 0 d1 = Inr d1"
| "distance_loop geodesic x y (Suc r) d1 =
     bind (geodesic_meters geodesic (x ! Suc r, y ! Suc r) (x ! r, y ! r))
       (\<lambda>d. distance_loop geodesic x y r (d1[r := d]))"

text \<open>
  \<open>file_XY_river\<close> stands for the table that \<open>pd.read_csv\<close> returns for that path.
\<close>

definition sort_river_nodes ::
  "(real list \<Rightarrow> nat list) \<Rightarrow> (real \<times> real \<Rightarrow> real \<times> real \<Rightarrow> real) \<Rightarrow> frame \<Rightarrow> int \<Rightarrow> error + frame"
where
  "sort_river_nodes argsort geodesic file_XY_river sort_LonLat =
     bind (if sort_LonLat = 0 then sort_values argsort ''Lon'' file_XY_river
           else if sort_LonLat = 1 then sort_values argsort ''Lat'' file_XY_river
           else Inl ValueError) (\<lambda>river_001.
     bind (getcol river_001 ''Lat'') (\<lambda>river_001_x.
     bind (getcol river_001 ''Lon'') (\<lambda>river_001_y.
     bind (getcol river_001 ''Node'') (\<lambda>river_001_n.
     bind (distance_loop geodesic river_001_x river_001_y (length river_001_n - 1)
             (replicate (length river_001_n) 0)) (\<lambda>d1.
       Inr [(''Node'', river_001_n), (''Lat'', river_001_x), (''Lon'', river_001_y),
            (''Distance'', d1)])))))"

section \<open>Nearest grid index (\<open>create_subset_nc\<close>, lines 80 to 84)\<close>

text \<open>
  A numpy array as its shape and its elements in row-major order; \<open>wf_ndarray\<close> says
  that there are as many elements as the shape asks for. An element is the real number
  that a finite floating-point number stands for, and every arithmetic operation of the
  code gives the exact result rounded to the type of the arrays: \<open>rnd\<close>, a parameter,
  is that rounding.
\<close>

record ndarray =
  shape :: "nat list"
  flat :: "real list"

definition wf_ndarray :: "ndarray \<Rightarrow> bool" where
  "wf_ndarray a \<longleftrightarrow> length (flat a) = prod_list (shape a)"

definition array1 :: "real list \<Rightarrow> ndarray" where
  "array1 xs = \<lparr>shape = [length xs], flat = xs\<rparr>"

definition nd_map :: "(real \<Rightarrow> real) \<Rightarrow> ndarray \<Rightarrow> ndarray" where
  "nd_map f a = a\<lparr>flat := map f (flat a)\<rparr>"

text \<open>
  numpy's broadcasting of two shapes, both given last axis first: axes are matched from
  the last one, an axis of length 1 stretches, a missing leading axis counts as 1, and
  any other mismatch is an error.
\<close>

fun broadcast_rev :: "nat list \<Rightarrow> nat list \<Rightarrow> nat list option" where
  "broadcast_rev [] ys = Some ys"
| "broadcast_rev (x # xs) [] = Some (x # xs)"
| "broadcast_rev (x # xs) (y # ys) =
     (if x = y \<or> y = 1 then map_option ((#) x) (broadcast_rev xs ys)
      else if x = 1 then map_option ((#) y) (broadcast_rev xs ys)
      else None)"

text \<open>The multi-index of flat position \<open>k\<close> in a shape, both last axis first.\<close>

fun unravel_rev :: "nat list \<Rightarrow> nat \<Rightarrow> nat list" where
  "unravel_rev [] k = []"
| "unravel_rev (d # ds) k = (k mod d) # unravel_rev ds (k div d)"

text \<open>
  The flat position, in an array of shape \<open>ds\<close>, of the element that broadcasting puts
  at a multi-index of the result (both last axis first): a stretched axis reads
  position 0.
\<close>

fun offset_rev :: "nat list \<Rightarrow> nat list \<Rightarrow> nat" where
  "offset_rev (d # ds) (i # is) = (if d = 1 then 0 else i) + d * offset_rev ds is"
| "offset_rev ds is = 0"

definition broadcast_to :: "ndarray \<Rightarrow> nat list \<Rightarrow> real list" where
  "broadcast_to a r =
     map (\<lambda>k. flat a ! offset_rev (rev (shape a)) (unravel_rev (rev r) k)) [0..<prod_list r]"

definition nd_add :: "(real \<Rightarrow> real) \<Rightarrow> ndarray \<Rightarrow> ndarray \<Rightarrow> error + ndarray" where
  "nd_add rnd a b =
     (case broadcast_rev (rev (shape a)) (rev (shape b)) of
        None \<Rightarrow> Inl ValueError
      | Some r \<Rightarrow>
          Inr \<lparr>shape = rev r,
               flat = map2 (\<lambda>u v. rnd (u + v)) (broadcast_to a (rev r)) (broadcast_to b (rev r))\<rparr>)"

text \<open>
  \<open>np.argmin(a, axis=None)\<close>: the flat position of the first occurrence of the least
  element, found in one pass that replaces the best position on a strictly smaller
  element only; \<open>ValueError\<close> on an empty array.
\<close>

fun argmin_scan :: "real list \<Rightarrow> nat \<Rightarrow> nat \<Rightarrow> real \<Rightarrow> nat" where
  "argmin_scan [] i best v = best"
| "argmin_scan (x # xs) i best v =
     (if x < v then argmin_scan xs (Suc i) i x else argmin_scan xs (Suc i) best v)"

definition argmin :: "real list \<Rightarrow> error + nat" where
  "argmin xs = (case xs of [] \<Rightarrow> Inl ValueError | x # rest \<Rightarrow> Inr (argmin_scan rest 1 0 x))"

text \<open>\<open>np.unravel_index(k, shape)\<close>, first axis first.\<close>

definition unravel_index :: "nat \<Rightarrow> nat list \<Rightarrow> nat list" where
  "unravel_index k shp = rev (unravel_rev (rev shp) k)"

text \<open>
  One pass of the loop of lines 81 to 84: the distances of every grid point to
  \<open>(lon, lat)\<close>, each difference, square, sum and square root rounded, the position of
  the least one, and component 0 of its multi-index (\<open>node_idx[0]\<close>, \<open>IndexError\<close> on
  the empty tuple of a 0-dimensional array).
\<close>

definition nearest :: "(real \<Rightarrow> real) \<Rightarrow> ndarray \<Rightarrow> ndarray \<Rightarrow> real \<Rightarrow> real \<Rightarrow> error + nat" where
  "nearest rnd longitude latitude lon lat =
     bind (nd_add rnd (nd_map (\<lambda>v. rnd ((rnd (v - lon))\<^sup>2)) longitude)
                      (nd_map (\<lambda>v. rnd ((rnd (v - lat))\<^sup>2)) latitude))
       (\<lambda>sq. let distances = nd_map (\<lambda>v. rnd (sqrt v)) sq in
          bind (argmin (flat distances)) (\<lambda>k.
            case unravel_index k (shape distances) of
              [] \<Rightarrow> Inl IndexError
            | i # rest \<Rightarrow> Inr i))"

text \<open>
  The loop over \<open>zip(river_lons, river_lats)\<close>: one index per query point, appended in
  the order of the queries; the first failing pass ends the run.
\<close>

fun resolve_indices ::
  "(real \<Rightarrow> real) \<Rightarrow> ndarray \<Rightarrow> ndarray \<Rightarrow> (real \<times> real) list \<Rightarrow> error + nat list"
where
  "resolve_indices rnd longitude latitude [] = Inr []"
| "resolve_indices rnd longitude latitude (q # qs) =
     bind (nearest rnd longitude latitude (fst q) (snd q)) (\<lambda>node_idx.
     bind (resolve_indices rnd longitude latitude qs) (\<lambda>river_nodes_idx.
       Inr (node_idx # river_nodes_idx)))"

text \<open>
  The measure of the Nearest-Grid-Index Resolver in the specification: the squared
  Euclidean distance, in (longitude, latitude) coordinates, between a query point and
  the grid cell at flat position \<open>k\<close>.
\<close>

definition squared_distance :: "ndarray \<Rightarrow> ndarray \<Rightarrow> real \<times> real \<Rightarrow> nat \<Rightarrow> real" where
  "squared_distance glon glat q k = (flat glon ! k - fst q)\<^sup>2 + (flat glat ! k - snd q)\<^sup>2"

text \<open>
  The measure of the code: the distance of line 82 as it is computed, between a query
  point and the grid cell at flat position \<open>k\<close>.
\<close>

definition computed_distance ::
  "(real \<Rightarrow> real) \<Rightarrow> ndarray \<Rightarrow> ndarray \<Rightarrow> real \<times> real \<Rightarrow> nat \<Rightarrow> real"
where
  "computed_distance rnd glon glat q k =
     rnd (sqrt (rnd (rnd ((rnd (flat glon ! k - fst q))\<^sup>2) + rnd ((rnd (flat glat ! k - snd q))\<^sup>2))))"

section \<open>Datasets and the subset writer (\<open>create_subset_nc\<close>, lines 91 to 118)\<close>

text \<open>
  A netCDF dataset with the seven variables of the toolbox, the source and the subset
  alike: its dimensions, the declarations of its variables (name, type, dimensions), the
  \<open>units\<close> attributes, and the values. The three-dimensional variables are lists of
  time slabs, each a list of nodes, each a list of levels. Values are real numbers;
  \<open>cast\<close>, a parameter, is the conversion to the type of the variable written. A file
  that lacks one of the seven variables (a \<open>KeyError\<close> where the variable is read) is not
  a value of this type.
\<close>

datatype dtype = Float32 | Float64

record nc_dataset =
  dimensions :: "(string \<times> nat) list"
  declared :: "(string \<times> dtype \<times> string list) list"
  units :: "(string \<times> string) list"
  longitude :: "real list"
  latitude :: "real list"
  level :: "real list"
  total_depth :: "real list"
  time :: "real list"
  salinity :: "real list list list"
  temperature :: "real list list list"

text \<open>
  The variables of a source have the sizes of three shared dimensions: \<open>n\<close> nodes,
  \<open>l\<close> levels, \<open>t\<close> time steps.
\<close>

definition cube :: "nat \<Rightarrow> nat \<Rightarrow> nat \<Rightarrow> real list list list \<Rightarrow> bool" where
  "cube t n l v \<longleftrightarrow>
     length v = t \<and> list_all (\<lambda>slab. length slab = n \<and> list_all (\<lambda>row. length row = l) slab) v"

definition wf_dataset :: "nat \<Rightarrow> nat \<Rightarrow> nat \<Rightarrow> nc_dataset \<Rightarrow> bool" where
  "wf_dataset t n l ds \<longleftrightarrow>
     length (longitude ds) = n \<and> length (latitude ds) = n \<and> length (total_depth ds) = n
     \<and> length (level ds) = l \<and> length (time ds) = t
     \<and> cube t n l (salinity ds) \<and> cube t n l (temperature ds)"

text \<open>
  Indexing by an integer as Python and numpy do it: a negative index counts from the
  end (\<open>position\<close>), anything out of range raises. \<open>index_all\<close> is indexing by a
  sequence of integers.
\<close>

definition position :: "nat \<Rightarrow> int \<Rightarrow> int" where
  "position n i = (if i < 0 then int n + i else i)"

definition item :: "'a list \<Rightarrow> int \<Rightarrow> error + 'a" where
  "item xs i =
     (let j = position (length xs) i
      in if 0 \<le> j \<and> j < int (length xs) then Inr (xs ! nat j) else Inl IndexError)"

fun index_all :: "'a list \<Rightarrow> int list \<Rightarrow> error + 'a list" where
  "index_all xs [] = Inr []"
| "index_all xs (i # is) =
     bind (item xs i) (\<lambda>v. bind (index_all xs is) (\<lambda>vs. Inr (v # vs)))"

text \<open>
  \<open>var[t, river_nodes_idx, :]\<close> on a netCDF variable: slab \<open>t\<close>, the rows of the mapped
  nodes, all levels. An empty list of nodes is refused: netCDF4 makes an array of the
  list, the array of an empty list has type \<open>float64\<close>, and only integer and boolean
  arrays are indices.
\<close>

definition read_slice :: "real list list list \<Rightarrow> int \<Rightarrow> nat list \<Rightarrow> error + real list list" where
  "read_slice var t river_nodes_idx =
     (if river_nodes_idx = [] then Inl IndexError
      else bind (item var t) (\<lambda>slab. index_all slab (map int river_nodes_idx)))"

text \<open>
  Lines 92 to 102: the new dataset with its three dimensions and its seven variables,
  every value still the default fill value of netCDF.
\<close>

definition NC_FILL :: real where
  "NC_FILL = 9969209968386869 * 10 ^ 21"

definition subset_variables :: "(string \<times> dtype \<times> string list) list" where
  "subset_variables =
     [(''longitude'', Float64, [''node'']),
      (''latitude'', Float64, [''node'']),
      (''level'', Float32, [''level'']),
      (''total_depth'', Float32, [''node'']),
      (''time'', Float64, [''time'']),
      (''salinity'', Float32, [''time'', ''node'', ''level'']),
      (''temperature'', Float32, [''time'', ''node'', ''level''])]"

definition allocate :: "nat \<Rightarrow> nat \<Rightarrow> nat \<Rightarrow> nc_dataset" where
  "allocate n_node n_level n_time =
     \<lparr>dimensions = [(''node'', n_node), (''level'', n_level), (''time'', n_time)],
      declared = subset_variables,
      units = [],
      longitude = replicate n_node NC_FILL,
      latitude = replicate n_node NC_FILL,
      level = replicate n_level NC_FILL,
      total_depth = replicate n_node NC_FILL,
      time = replicate n_time NC_FILL,
      salinity = replicate n_time (replicate n_node (replicate n_level NC_FILL)),
      temperature = replicate n_time (replicate n_node (replicate n_level NC_FILL))\<rparr>"

text \<open>
  Lines 104 to 108: the units; the source's \<open>time\<close> variable must have the attribute.
\<close>

definition set_units :: "nc_dataset \<Rightarrow> nc_dataset \<Rightarrow> error + nc_dataset" where
  "set_units dataset new_dataset =
     (case map_of (units dataset) ''time'' of
        None \<Rightarrow> Inl AttributeError
      | Some u \<Rightarrow>
          Inr (new_dataset\<lparr>units := [(''time'', u), (''latitude'', ''degrees_north''),
                                      (''longitude'', ''degrees_east''), (''level'', ''meters''),
                                      (''total_depth'', ''meters'')]\<rparr>))"

text \<open>
  Lines 110 to 114: the per-node variables, the levels and the selected times.
  \<open>time_steps\<close> is a numpy array; \<open>integer_index\<close> says that its type is an integer
  type, which numpy demands of an array used as an index.
\<close>

definition copy_variables ::
  "(dtype \<Rightarrow> real \<Rightarrow> real) \<Rightarrow> nc_dataset \<Rightarrow> nat list \<Rightarrow> bool \<Rightarrow> int list
     \<Rightarrow> (nc_dataset \<Rightarrow> error + nc_dataset) list"
where
  "copy_variables cast dataset river_nodes_idx integer_index time_steps =
     [\<lambda>new. bind (index_all (longitude dataset) (map int river_nodes_idx))
               (\<lambda>v. Inr (new\<lparr>longitude := map (cast Float64) v\<rparr>)),
      \<lambda>new. bind (index_all (latitude dataset) (map int river_nodes_idx))
               (\<lambda>v. Inr (new\<lparr>latitude := map (cast Float64) v\<rparr>)),
      \<lambda>new. Inr (new\<lparr>level := map (cast Float32) (level dataset)\<rparr>),
      \<lambda>new. bind (index_all (total_depth dataset) (map int river_nodes_idx))
               (\<lambda>v. Inr (new\<lparr>total_depth := map (cast Float32) v\<rparr>)),
      \<lambda>new. bind (if integer_index then index_all (time dataset) time_steps else Inl IndexError)
               (\<lambda>v. Inr (new\<lparr>time := map (cast Float64) v\<rparr>))]"

text \<open>
  Lines 116 to 118: the two assignments of the pass for output slot \<open>i\<close> and source
  time index \<open>t\<close>, and the passes for \<open>enumerate(time_steps)\<close> from slot \<open>i\<close> on.
\<close>

definition copy_slice ::
  "(dtype \<Rightarrow> real \<Rightarrow> real) \<Rightarrow> nc_dataset \<Rightarrow> nat list \<Rightarrow> nat \<Rightarrow> int
     \<Rightarrow> (nc_dataset \<Rightarrow> error + nc_dataset) list"
where
  "copy_slice cast dataset river_nodes_idx i t =
     [\<lambda>new. bind (read_slice (salinity dataset) t river_nodes_idx)
               (\<lambda>v. Inr (new\<lparr>salinity := (salinity new)[i := map (map (cast Float32)) v]\<rparr>)),
      \<lambda>new. bind (read_slice (temperature dataset) t river_nodes_idx)
               (\<lambda>v. Inr (new\<lparr>temperature := (temperature new)[i := map (map (cast Float32)) v]\<rparr>))]"

fun copy_slices ::
  "(dtype \<Rightarrow> real \<Rightarrow> real) \<Rightarrow> nc_dataset \<Rightarrow> nat list \<Rightarrow> nat \<Rightarrow> int list
     \<Rightarrow> (nc_dataset \<Rightarrow> error + nc_dataset) list"
where
  "copy_slices cast dataset river_nodes_idx i [] = []"
| "copy_slices cast dataset river_nodes_idx i (t # ts) =
     copy_slice cast dataset river_nodes_idx i t
       @ copy_slices cast dataset river_nodes_idx (Suc i) ts"

text \<open>
  The statements run in order on the dataset being written; the first one that raises
  ends the run and leaves the dataset as it was at that point.
\<close>

fun run_steps ::
  "(nc_dataset \<Rightarrow> error + nc_dataset) list \<Rightarrow> nc_dataset \<Rightarrow> error option \<times> nc_dataset"
where
  "run_steps [] new = (None, new)"
| "run_steps (step # steps) new =
     (case step new of Inl e \<Rightarrow> (Some e, new) | Inr new' \<Rightarrow> run_steps steps new')"

definition write_dataset ::
  "(dtype \<Rightarrow> real \<Rightarrow> real) \<Rightarrow> nc_dataset \<Rightarrow> nat list \<Rightarrow> bool \<Rightarrow> int list
     \<Rightarrow> error option \<times> nc_dataset"
where
  "write_dataset cast dataset river_nodes_idx integer_index time_steps =
     run_steps
       (set_units dataset
          # copy_variables cast dataset river_nodes_idx integer_index time_steps
          @ copy_slices cast dataset river_nodes_idx 0 time_steps)
       (allocate (length river_nodes_idx) (length (level dataset)) (length time_steps))"

text \<open>
  The files that runs create, by path. Opening \<open>output_file\<close> with mode \<open>'w'\<close> replaces
  whatever the path held.
\<close>

type_synonym files = "string \<rightharpoonup> nc_dataset"

text \<open>
  The Subset Writer for queries already ordered and a time selection already made, an
  array of integers: lines 80 to 84 and 91 to 118.
\<close>

definition write_subset ::
  "(real \<Rightarrow> real) \<Rightarrow> (dtype \<Rightarrow> real \<Rightarrow> real) \<Rightarrow> nc_dataset \<Rightarrow> (real \<times> real) list \<Rightarrow> int list
     \<Rightarrow> string \<Rightarrow> files \<Rightarrow> error option \<times> files"
where
  "write_subset rnd cast dataset queries time_selection output_file fs =
     (case resolve_indices rnd (array1 (longitude dataset)) (array1 (latitude dataset))
             queries of
        Inl e \<Rightarrow> (Some e, fs)
      | Inr river_nodes_idx \<Rightarrow>
          (case write_dataset cast dataset river_nodes_idx True time_selection of
             (r, new_dataset) \<Rightarrow> (r, fs(output_file \<mapsto> new_dataset))))"

text \<open>
  The type of the array \<open>time_steps\<close> after lines 86 to 89 is an integer type, except
  that \<open>np.arange\<close> with a step outside the range of 64-bit integers and \<open>np.array\<close> of
  an empty list give arrays of type \<open>float64\<close>.
\<close>

definition integer_array :: "int list option \<Rightarrow> int \<Rightarrow> bool" where
  "integer_array time_steps save_frequency =
     (case time_steps of
        None \<Rightarrow> - (2 ^ 63) \<le> save_frequency \<and> save_frequency < 2 ^ 63
      | Some explicit \<Rightarrow> explicit \<noteq> [])"

text \<open>
  \<open>create_subset_nc\<close>, with the source dataset and the river table in place of the paths
  they are read from.
\<close>

definition create_subset_nc ::
  "(real list \<Rightarrow> nat list) \<Rightarrow> (real \<times> real \<Rightarrow> real \<times> real \<Rightarrow> real) \<Rightarrow> (real \<Rightarrow> real)
     \<Rightarrow> (dtype \<Rightarrow> real \<Rightarrow> real)
     \<Rightarrow> nc_dataset \<Rightarrow> frame \<Rightarrow> int \<Rightarrow> string \<Rightarrow> int list option \<Rightarrow> int
     \<Rightarrow> files \<Rightarrow> error option \<times> files"
where
  "create_subset_nc argsort geodesic rnd cast nc_file river_file sort_LonLat output_file
       time_steps save_frequency fs =
     (case sort_river_nodes argsort geodesic river_file sort_LonLat of
        Inl e \<Rightarrow> (Some e, fs)
      | Inr river_nodes \<Rightarrow>
     (case bind (getcol river_nodes ''Lon'') (\<lambda>river_lons.
           bind (getcol river_nodes ''Lat'') (\<lambda>river_lats.
             resolve_indices rnd (array1 (longitude nc_file)) (array1 (latitude nc_file))
               (zip river_lons river_lats))) of
        Inl e \<Rightarrow> (Some e, fs)
      | Inr river_nodes_idx \<Rightarrow>
     (case select_time_steps (int (length (time nc_file))) time_steps save_frequency of
        Inl e \<Rightarrow> (Some e, fs)
      | Inr selected \<Rightarrow>
     (case write_dataset cast nc_file river_nodes_idx
             (integer_array time_steps save_frequency) selected of
        (r, new_dataset) \<Rightarrow> (r, fs(output_file \<mapsto> new_dataset))))))"

section \<open>Instances of the library parameters\<close>

text \<open>
  Stand-ins for evaluating the functions on concrete inputs: a distance between two
  (latitude, longitude) points in place of geopy's \<open>geodesic\<close>, and a conversion that
  represents every value exactly in place of the casts to \<open>float32\<close> and \<open>float64\<close>.
\<close>

definition taxicab :: "real \<times> real \<Rightarrow> real \<times> real \<Rightarrow> real" where
  "taxicab p q = \<bar>fst p - fst q\<bar> + \<bar>snd p - snd q\<bar>"

definition exact_cast :: "dtype \<Rightarrow> real \<Rightarrow> real" where
  "exact_cast d v = v"

text \<open>
  The rounding of \<open>float64\<close> arrays: to the nearest number with a significand of 53
  bits, a tie to the one with an even significand, with the fixed spacing \<open>2^-1074\<close>
  below \<open>2^-1022\<close>. \<open>ulp64 x\<close> is the spacing of such numbers around \<open>x\<close>. Results of
  magnitude \<open>2^1024\<close> or more, which are infinite in \<open>float64\<close>, are outside this
  function.
\<close>

definition round_half_even :: "real \<Rightarrow> int" where
  "round_half_even m =
     (if m - of_int \<lfloor>m\<rfloor> < 1 / 2 then \<lfloor>m\<rfloor>
      else if 1 / 2 < m - of_int \<lfloor>m\<rfloor> then \<lfloor>m\<rfloor> + 1
      else if even \<lfloor>m\<rfloor> then \<lfloor>m\<rfloor> else \<lfloor>m\<rfloor> + 1)"

definition ulp64 :: "real \<Rightarrow> real" where
  "ulp64 x = 2 powr (of_int (max \<lfloor>log 2 \<bar>x\<bar>\<rfloor> (- 1022)) - 52)"

definition fl64 :: "real \<Rightarrow> real" where
  "fl64 x = (if x = 0 then 0 else sgn x * (of_int (round_half_even (\<bar>x\<bar> / ulp64 x)) * ulp64 x))"


text \<open>A source with three nodes, one level and two time steps.\<close>

definition three_nodes :: nc_dataset where
  "three_nodes =
     \<lparr>dimensions = [(''time'', 2), (''node'', 3), (''level'', 1)],
      declared = [],
      units = [(''time'', ''seconds'')],
      longitude = [0, 1, 2],
      latitude = [0, 0, 0],
      level = [5],
      total_depth = [7, 8, 9],
      time = [100, 200],
      salinity = [[[1], [2], [3]], [[4], [5], [6]]],
      temperature = [[[11], [12], [13]], [[14], [15], [16]]]\<rparr>"


section \<open>Properties of the time-step selection\<close>

text \<open>
  The count of \<open>np.arange\<close> is a ceiling: position \<open>i\<close> is produced exactly when
  \<open>i * s\<close> is still below the bound.
\<close>

lemma ceil_div_less_iff:
  fixes s L :: int
  assumes "0 < s"
  shows "int i < - ((- L) div s) \<longleftrightarrow> int i * s < L"
proof -
  define c where "c = - ((- L) div s)"
  have eq: "- L = s * (- c) + (- L) mod s" unfolding c_def by simp
  have r0: "0 \<le> (- L) mod s" and r1: "(- L) mod s < s" using assms by simp_all
  have up: "L \<le> s * c" using eq r0 by (simp add: algebra_simps)
  have lo: "s * c - s < L" using eq r1 by (simp add: algebra_simps)
  show ?thesis
  proof
    assume "int i < - ((- L) div s)"
    then have "int i \<le> c - 1" by (simp add: c_def)
    then have "int i * s \<le> (c - 1) * s" using assms by (simp add: mult_right_mono)
    also have "\<dots> < L" using lo by (simp add: algebra_simps)
    finally show "int i * s < L" .
  next
    assume a: "int i * s < L"
    show "int i < - ((- L) div s)"
    proof (rule ccontr)
      assume "\<not> int i < - ((- L) div s)"
      then have "c \<le> int i" by (simp add: c_def)
      then have "c * s \<le> int i * s" using assms by (simp add: mult_right_mono)
      with up a show False by (simp add: algebra_simps)
    qed
  qed
qed

lemma arange_positive:
  assumes "0 < stride"
  shows "\<exists>n. arange 0 len_time stride = Inr (map (\<lambda>i. int i * stride) [0..<n])
            \<and> (\<forall>i. i < n \<longleftrightarrow> int i * stride < len_time)"
proof -
  let ?n = "nat (- ((- len_time) div stride))"
  have "\<And>i. i < ?n \<longleftrightarrow> int i * stride < len_time"
    using ceil_div_less_iff [OF assms, of _ len_time] by (simp add: zless_nat_eq_int_zless)
  moreover have "arange 0 len_time stride = Inr (map (\<lambda>i. int i * stride) [0..<?n])"
    using assms by (simp add: arange_def)
  ultimately show ?thesis by blast
qed

lemma stride_count:
  assumes "0 < (k::nat)"
  shows "i < (len + k - 1) div k \<longleftrightarrow> i * k < len"
proof -
  have "i < (len + k - 1) div k \<longleftrightarrow> Suc i \<le> (len + k - 1) div k" by auto
  also have "\<dots> \<longleftrightarrow> Suc i * k \<le> len + k - 1"
    using assms by (simp only: less_eq_div_iff_mult_less_eq)
  also have "\<dots> \<longleftrightarrow> i * k < len" using assms by auto
  finally show ?thesis .
qed

text \<open>
  Claim C3. For a non-negative total and a positive stride: without an explicit
  sequence the selection is \<open>0, stride, 2 * stride, ...\<close>, holding exactly the multiples
  of the stride below the total; with an explicit sequence it is the elements at the
  positions \<open>0, stride, 2 * stride, ...\<close> of that sequence, all of those that exist,
  whatever the values are (duplicates stay, no value is compared with the total). For
  total 10, explicit \<open>[1, 3, 5, 7, 9]\<close> and stride 2 the selection is \<open>[1, 5, 9]\<close>.
\<close>

theorem select_time_steps_stride:
  assumes "0 \<le> len_time" and "0 < stride"
  shows "(\<exists>n. select_time_steps len_time None stride = Inr (map (\<lambda>i. int i * stride) [0..<n])
             \<and> (\<forall>i. i < n \<longleftrightarrow> int i * stride < len_time))
       \<and> (\<exists>n. select_time_steps len_time (Some ts) stride
                 = Inr (map (\<lambda>i. ts ! (i * nat stride)) [0..<n])
             \<and> (\<forall>i. i < n \<longleftrightarrow> i * nat stride < length ts))
       \<and> select_time_steps 10 (Some [1, 3, 5, 7, 9]) 2 = Inr [1, 5, 9]"
proof (intro conjI)
  show "\<exists>n. select_time_steps len_time None stride = Inr (map (\<lambda>i. int i * stride) [0..<n])
             \<and> (\<forall>i. i < n \<longleftrightarrow> int i * stride < len_time)"
    using arange_positive [OF assms(2)] by (simp add: select_time_steps_def)
next
  have k: "0 < nat stride" using assms(2) by simp
  have "select_time_steps len_time (Some ts) stride
          = Inr (map (\<lambda>i. ts ! (i * nat stride)) [0..<(length ts + nat stride - 1) div nat stride])"
    using assms(2) by (simp add: select_time_steps_def slice_step_def)
  then show "\<exists>n. select_time_steps len_time (Some ts) stride
                 = Inr (map (\<lambda>i. ts ! (i * nat stride)) [0..<n])
             \<and> (\<forall>i. i < n \<longleftrightarrow> i * nat stride < length ts)"
    using stride_count [OF k] by blast
next
  show "select_time_steps 10 (Some [1, 3, 5, 7, 9]) 2 = Inr [1, 5, 9]"
    by (simp add: select_time_steps_def slice_step_def upt_conv_Cons)
qed

theorem select_time_steps_stride_witness:
  "(0::int) \<le> 10 \<and> (0::int) < 2
   \<and> (\<exists>n. select_time_steps 10 None 2 = Inr (map (\<lambda>i. int i * 2) [0..<n])
             \<and> (\<forall>i. i < n \<longleftrightarrow> int i * 2 < 10))
   \<and> select_time_steps 10 None 2 = Inr [0, 2, 4, 6, 8]
   \<and> select_time_steps 4 (Some [7, 7, 99, -3]) 1 = Inr [7, 7, 99, -3]"
proof -
  have h1: "(0::int) \<le> 10" and h2: "(0::int) < 2" by simp_all
  have "select_time_steps 10 None 2 = Inr [0, 2, 4, 6, 8]"
    by (simp add: select_time_steps_def arange_def upt_conv_Cons)
  moreover have "select_time_steps 4 (Some [7, 7, 99, -3]) 1 = Inr [7, 7, 99, -3]"
    by (simp add: select_time_steps_def slice_step_def upt_conv_Cons)
  ultimately show ?thesis using select_time_steps_stride [OF h1 h2, of "[]"] by simp
qed

text \<open>
  Claim C7, as stated, fails: a negative stride is not rejected. With total 5 and
  stride \<open>-1\<close> the selection without an explicit sequence is empty, and the explicit
  sequence \<open>[1, 3, 4]\<close> comes back reversed.
\<close>

theorem negative_stride_not_rejected:
  "select_time_steps 5 None (- 1) = Inr []
   \<and> select_time_steps 5 (Some [1, 3, 4]) (- 1) = Inr [4, 3, 1]"
  by (simp add: select_time_steps_def arange_def slice_step_def upt_conv_Cons)

text \<open>
  Claim C7, amended. A zero stride fails whatever the total and the explicit sequence
  are (\<open>ZeroDivisionError\<close> from \<open>np.arange\<close>, \<open>ValueError\<close> from the slice). A negative
  stride does not fail: without an explicit sequence and with a non-negative total the
  selection is empty; with an explicit sequence it is every \<open>|stride|\<close>-th element
  counted from the last one backwards.
\<close>

theorem select_time_steps_nonpositive_stride:
  "select_time_steps len_time None 0 = Inl ZeroDivisionError
   \<and> select_time_steps len_time (Some ts) 0 = Inl ValueError
   \<and> (stride < 0 \<longrightarrow> 0 \<le> len_time \<longrightarrow> select_time_steps len_time None stride = Inr [])
   \<and> (stride < 0 \<longrightarrow>
        (\<exists>n. select_time_steps len_time (Some ts) stride
                = Inr (map (\<lambda>i. ts ! (length ts - 1 - i * nat (- stride))) [0..<n])
            \<and> (\<forall>i. i < n \<longleftrightarrow> i * nat (- stride) < length ts)))"
proof (intro conjI impI)
  show "select_time_steps len_time None 0 = Inl ZeroDivisionError"
    by (simp add: select_time_steps_def arange_def)
  show "select_time_steps len_time (Some ts) 0 = Inl ValueError"
    by (simp add: select_time_steps_def slice_step_def)
next
  assume s: "stride < 0" and l: "0 \<le> len_time"
  have "(- len_time) div stride \<ge> 0" using s l by (simp add: neg_imp_zdiv_nonneg_iff)
  then show "select_time_steps len_time None stride = Inr []"
    using s by (simp add: select_time_steps_def arange_def)
next
  assume s: "stride < 0"
  then have k: "0 < nat (- stride)" by simp
  have "select_time_steps len_time (Some ts) stride
          = Inr (map (\<lambda>i. ts ! (length ts - 1 - i * nat (- stride)))
                  [0..<(length ts + nat (- stride) - 1) div nat (- stride)])"
    using s by (simp add: select_time_steps_def slice_step_def)
  then show "\<exists>n. select_time_steps len_time (Some ts) stride
                 = Inr (map (\<lambda>i. ts ! (length ts - 1 - i * nat (- stride))) [0..<n])
             \<and> (\<forall>i. i < n \<longleftrightarrow> i * nat (- stride) < length ts)"
    using stride_count [OF k] by blast
qed

theorem select_time_steps_nonpositive_stride_witness:
  "(- 2 :: int) < 0 \<and> (0::int) \<le> 5
   \<and> select_time_steps 5 None 0 = Inl ZeroDivisionError
   \<and> select_time_steps 5 (Some [1, 3, 4]) 0 = Inl ValueError
   \<and> select_time_steps 5 None (- 2) = Inr []
   \<and> select_time_steps 5 (Some [1, 3, 4]) (- 2) = Inr [4, 1]"
proof -
  have "select_time_steps 5 (Some [1, 3, 4]) (- 2) = Inr [4, 1]"
    by (simp add: select_time_steps_def slice_step_def upt_conv_Cons)
  then show ?thesis
    using select_time_steps_nonpositive_stride [of 5 "[1, 3, 4]" "- 2"] by simp
qed

section \<open>Properties of the rounding to \<open>float64\<close>\<close>

text \<open>
  A number \<open>m * 2^p\<close> with \<open>|m| < 2^53\<close> and \<open>p \<ge> -1074\<close> is a \<open>float64\<close> number, and
  rounding leaves it as it is; so it does the integers and the dyadic fractions that
  the evaluations below meet.
\<close>

lemma round_half_even_of_int [simp]: "round_half_even (of_int k) = k"
  by (simp add: round_half_even_def)

lemma fl64_dyadic:
  assumes m: "\<bar>m\<bar> < 2 ^ 53" and p: "- 1074 \<le> p"
  shows "fl64 (of_int m * 2 powr of_int p) = of_int m * 2 powr of_int p"
proof (cases "m = 0")
  case True
  then show ?thesis by (simp add: fl64_def)
next
  case False
  define x :: real where "x = of_int m * 2 powr of_int p"
  define a :: real where "a = \<bar>x\<bar>"
  have a: "a = of_int \<bar>m\<bar> * 2 powr of_int p" by (simp add: a_def x_def abs_mult)
  have apos: "0 < a" using False by (simp add: a)
  have "of_int \<bar>m\<bar> < (2::real) ^ 53" using m by (metis of_int_less_numeral_power_cancel_iff)
  then have "a < 2 ^ 53 * 2 powr of_int p" by (simp add: a)
  also have "\<dots> = 2 powr (of_int p + 53)" by (simp add: powr_add powr_realpow [symmetric])
  finally have "log 2 a < of_int p + 53" using apos by (simp add: log_less_iff)
  then have "\<lfloor>log 2 a\<rfloor> < p + 53" by (simp add: floor_less_iff)
  then have E: "max \<lfloor>log 2 a\<rfloor> (- 1022) \<le> p + 52" using p by simp
  define E where "E = max \<lfloor>log 2 a\<rfloor> (- 1022)"
  define d where "d = nat (p + 52 - E)"
  have dE: "(of_int p :: real) = real d + (of_int E - 52)" using E by (simp add: d_def E_def)
  have u: "ulp64 x = 2 powr (of_int E - 52)" by (simp add: ulp64_def E_def a_def)
  have "(2::real) powr of_int p = 2 ^ d * 2 powr (of_int E - 52)"
    unfolding dE by (simp add: powr_add powr_realpow)
  then have au: "a = of_int (\<bar>m\<bar> * 2 ^ d) * ulp64 x" by (simp add: a u)
  have upos: "0 < ulp64 x" by (simp add: u)
  then have "a / ulp64 x = of_int (\<bar>m\<bar> * 2 ^ d)" using au by simp
  then have "round_half_even (\<bar>x\<bar> / ulp64 x) = \<bar>m\<bar> * 2 ^ d"
    unfolding a_def [symmetric] by (simp only: round_half_even_of_int)
  then have "fl64 x = sgn x * a" using False au by (simp add: fl64_def x_def)
  also have "\<dots> = x" by (simp add: a_def sgn_mult_abs)
  finally show ?thesis by (simp add: x_def)
qed

lemma fl64_of_int:
  assumes "\<bar>m\<bar> < 2 ^ 53"
  shows "fl64 (of_int m) = of_int m"
  using fl64_dyadic [OF assms, of 0] by simp

lemma fl64_numeral [simp]:
  "(numeral k :: int) < 2 ^ 53 \<Longrightarrow> fl64 (numeral k) = numeral k"
  using fl64_of_int [of "numeral k"] by simp

lemma fl64_neg_numeral [simp]:
  "(numeral k :: int) < 2 ^ 53 \<Longrightarrow> fl64 (- numeral k) = - numeral k"
  using fl64_of_int [of "- numeral k"] by simp

lemma fl64_zero [simp]: "fl64 0 = 0"
  by (simp add: fl64_def)

lemma fl64_one [simp]: "fl64 1 = 1"
  using fl64_of_int [of 1] by simp

lemma fl64_neg_one [simp]: "fl64 (- 1) = - 1"
  using fl64_of_int [of "- 1"] by simp

lemma fl64_pow2_inverse:
  assumes "\<bar>m\<bar> < 2 ^ 53" and "n \<le> 1074"
  shows "fl64 (of_int m / 2 ^ n) = of_int m / 2 ^ n"
proof -
  have "(2::real) powr of_int (- int n) = 1 / 2 ^ n"
    by (simp add: powr_minus powr_realpow divide_inverse)
  then show ?thesis using fl64_dyadic [OF assms(1), of "- int n"] assms(2) by simp
qed


text \<open>
  The square root of \<open>1 + 2^-52\<close>, the \<open>float64\<close> number next above 1, lies less than
  half a spacing above 1 and rounds to 1.
\<close>

lemma round_half_even_below_half:
  assumes "of_int k \<le> m" and "m < of_int k + 1 / 2"
  shows "round_half_even m = k"
proof -
  have "\<lfloor>m\<rfloor> = k" using assms by (intro floor_unique) simp_all
  then show ?thesis using assms(2) by (simp add: round_half_even_def)
qed

lemma fl64_sqrt_above_one: "fl64 (sqrt (1 + 1 / 2 ^ 52)) = 1"
proof -
  define e :: real where "e = 1 / 2 ^ 53"
  define x :: real where "x = sqrt (1 + 2 * e)"
  have e0: "0 < e" by (simp add: e_def)
  have e52: "1 / 2 ^ 52 = 2 * e" by (simp add: e_def)
  have p52: "(2::real) ^ 52 * e = 1 / 2" by (simp add: e_def)
  have x1: "1 < x" unfolding x_def using e0 by simp
  have "1 + 2 * e < (1 + e)\<^sup>2" using e0 by (simp add: power2_eq_square algebra_simps)
  then have xu: "x < 1 + e" unfolding x_def using e0 by (intro real_less_lsqrt) simp_all
  have "e < 1" by (simp add: e_def)
  with xu have x2: "x < 2" by simp
  have "\<lfloor>log 2 x\<rfloor> = 0"
    using x1 x2 by (simp add: floor_log_eq_powr_iff)
  then have "ulp64 x = 2 powr (- 52)"
    using x1 by (simp add: ulp64_def)
  also have "\<dots> = inverse (2 powr 52)" by (rule powr_minus)
  also have "(2::real) powr 52 = 2 ^ 52" by (rule powr_numeral) simp
  finally have u: "ulp64 x = 1 / 2 ^ 52" by (simp only: inverse_eq_divide)
  have q: "\<bar>x\<bar> / ulp64 x = x * 2 ^ 52" using x1 by (simp add: u)
  have lo: "(2::real) ^ 52 < x * 2 ^ 52" using x1 by simp
  have "x * 2 ^ 52 < (1 + e) * 2 ^ 52" using xu by simp
  also have "\<dots> = 2 ^ 52 + 1 / 2" using p52 by (simp add: algebra_simps)
  finally have hi: "x * 2 ^ 52 < 2 ^ 52 + 1 / 2" .
  have "round_half_even (x * 2 ^ 52) = 2 ^ 52"
  proof (rule round_half_even_below_half)
    show "of_int (2 ^ 52) \<le> x * 2 ^ 52" using lo by simp
    show "x * 2 ^ 52 < of_int (2 ^ 52) + 1 / 2" using hi by simp
  qed
  then have "fl64 x = 1" using x1 by (simp add: fl64_def q u)
  then show ?thesis by (simp only: x_def e52)
qed

section \<open>Properties of the river-node ordering\<close>

lemma bind_Inr [simp]: "bind (Inr x) f = f x"
  by (simp add: bind_def)

lemma bind_Inl [simp]: "bind (Inl e) f = Inl e"
  by (simp add: bind_def)

lemma map_of_take_rows:
  "map_of (take_rows p df) c = map_option (\<lambda>col. map (\<lambda>i. col ! i) p) (map_of df c)"
  by (induction df) (auto simp: take_rows_def)

lemma wf_frame_length:
  assumes "wf_frame k df" and "map_of df c = Some col"
  shows "length col = k"
proof -
  from assms(2) have "(c, col) \<in> set df" by (rule map_of_SomeD)
  with assms(1) show ?thesis by (auto simp: wf_frame_def list_all_iff)
qed

lemma argsort_spec_length:
  assumes "argsort_spec argsort"
  shows "length (argsort ks) = length ks"
proof -
  from assms have "mset (argsort ks) = mset [0..<length ks]" by (simp add: argsort_spec_def)
  then have "size (mset (argsort ks)) = size (mset [0..<length ks])" by simp
  then show ?thesis by simp
qed

lemma argsort_spec_set:
  assumes "argsort_spec argsort"
  shows "set (argsort ks) = {0..<length ks}"
proof -
  from assms have "mset (argsort ks) = mset [0..<length ks]" by (simp add: argsort_spec_def)
  then have "set_mset (mset (argsort ks)) = set_mset (mset [0..<length ks])" by simp
  then show ?thesis by simp
qed

text \<open>
  With latitudes in range, the loop runs to its end: the slots below its start hold the
  distances, the other slots are left as they were.
\<close>

lemma distance_loop_Inr:
  assumes "\<forall>i < n. valid_latitude (x ! i)" and "r = 0 \<or> r < n"
  shows "\<exists>d'. distance_loop g x y r d = Inr d' \<and> length d' = length d
           \<and> (\<forall>i < length d.
                 d' ! i = (if i < r then g (x ! Suc i, y ! Suc i) (x ! i, y ! i) else d ! i))"
  using assms(2)
proof (induction r arbitrary: d)
  case 0
  then show ?case by simp
next
  case (Suc r)
  let ?v = "g (x ! Suc r, y ! Suc r) (x ! r, y ! r)"
  have "valid_latitude (x ! Suc r)" and "valid_latitude (x ! r)"
    using assms(1) Suc.prems by simp_all
  then have step: "geodesic_meters g (x ! Suc r, y ! Suc r) (x ! r, y ! r) = Inr ?v"
    by (simp add: geodesic_meters_def)
  have "r = 0 \<or> r < n" using Suc.prems by auto
  from Suc.IH [OF this, of "d[r := ?v]"] obtain d' where
    d': "distance_loop g x y r (d[r := ?v]) = Inr d'" "length d' = length d"
      "\<forall>i < length d. d' ! i = (if i < r then g (x ! Suc i, y ! Suc i) (x ! i, y ! i)
                                   else d[r := ?v] ! i)"
    by auto
  have "\<forall>i < length d.
          d' ! i = (if i < Suc r then g (x ! Suc i, y ! Suc i) (x ! i, y ! i) else d ! i)"
    using d'(3) by (auto simp: nth_list_update less_Suc_eq)
  with d'(1,2) step show ?case by simp
qed

lemma sort_river_nodes_Inr:
  assumes axis: "sort_LonLat = 0 \<or> sort_LonLat = 1"
    and n0: "map_of df ''Node'' = Some n0"
    and x0: "map_of df ''Lat'' = Some x0"
    and y0: "map_of df ''Lon'' = Some y0"
    and p: "p = argsort (if sort_LonLat = 0 then y0 else x0)"
    and valid: "\<forall>i \<in> set p. valid_latitude (x0 ! i)"
  shows "\<exists>d. sort_river_nodes argsort geodesic df sort_LonLat =
             Inr [(''Node'', map (\<lambda>i. n0 ! i) p), (''Lat'', map (\<lambda>i. x0 ! i) p),
                  (''Lon'', map (\<lambda>i. y0 ! i) p), (''Distance'', d)]
           \<and> length d = length p
           \<and> (\<forall>i. Suc i < length p \<longrightarrow>
                 d ! i = geodesic (x0 ! (p ! Suc i), y0 ! (p ! Suc i)) (x0 ! (p ! i), y0 ! (p ! i)))
           \<and> (0 < length p \<longrightarrow> d ! (length p - 1) = 0)"
proof -
  let ?x = "map (\<lambda>i. x0 ! i) p" and ?y = "map (\<lambda>i. y0 ! i) p"
  have v: "\<forall>i < length p. valid_latitude (?x ! i)" using valid by simp
  have r: "length p - 1 = 0 \<or> length p - 1 < length p" by auto
  from distance_loop_Inr [OF v r, of geodesic ?y "replicate (length p) 0"] obtain d where
    d: "distance_loop geodesic ?x ?y (length p - 1) (replicate (length p) 0) = Inr d"
      "length d = length p"
      "\<forall>i < length p. d ! i = (if i < length p - 1
          then geodesic (?x ! Suc i, ?y ! Suc i) (?x ! i, ?y ! i)
          else replicate (length p) (0::real) ! i)"
    by auto
  have run: "sort_river_nodes argsort geodesic df sort_LonLat =
             Inr [(''Node'', map (\<lambda>i. n0 ! i) p), (''Lat'', ?x), (''Lon'', ?y), (''Distance'', d)]"
    using axis n0 x0 y0 p d(1)
    by (auto simp: sort_river_nodes_def sort_values_def getcol_def map_of_take_rows)
  have slots: "\<forall>i. Suc i < length p \<longrightarrow>
                 d ! i = geodesic (x0 ! (p ! Suc i), y0 ! (p ! Suc i)) (x0 ! (p ! i), y0 ! (p ! i))"
  proof (intro allI impI)
    fix i assume i: "Suc i < length p"
    then have "i < length p" and "i < length p - 1" by simp_all
    with d(3) i show "d ! i = geodesic (x0 ! (p ! Suc i), y0 ! (p ! Suc i)) (x0 ! (p ! i), y0 ! (p ! i))"
      by simp
  qed
  have final: "0 < length p \<longrightarrow> d ! (length p - 1) = 0"
    using d(3) by simp
  from run d(2) slots final show ?thesis by blast
qed

text \<open>The rows that a sort meeting the library's promise takes are rows of the table.\<close>

lemma argsort_rows_valid:
  assumes "argsort_spec argsort" and "length x0 = length ks"
    and "\<forall>v \<in> set x0. valid_latitude v"
  shows "\<forall>i \<in> set (argsort ks). valid_latitude (x0 ! i)"
  using assms argsort_spec_set [OF assms(1), of ks] by simp

text \<open>The sort defined above meets the library's promise, and it is stable.\<close>

lemma stable_argsort_spec: "argsort_spec stable_argsort"
  by (simp add: argsort_spec_def stable_argsort_def)

lemma stable_argsort_stable: "stable_spec stable_argsort"
  by (simp add: stable_spec_def stable_argsort_def sort_key_stable)

text \<open>
  Claim C4. For a table with the columns \<open>Node\<close>, \<open>Lat\<close> and \<open>Lon\<close>, \<open>k\<close> rows, latitudes
  within \<open>[-90, 90]\<close> (geopy refuses others) and a valid axis selector,
  \<open>sort_river_nodes\<close> returns the four columns \<open>Node\<close>, \<open>Lat\<close>, \<open>Lon\<close>, \<open>Distance\<close>, each
  of length \<open>k\<close>; slot \<open>i\<close> of \<open>Distance\<close>, for every \<open>i\<close> before the last, is the geodesic
  distance between the sorted nodes \<open>i + 1\<close> and \<open>i\<close>, and the last slot of a non-empty
  table is 0.
\<close>

theorem distance_slots:
  assumes "sort_LonLat = 0 \<or> sort_LonLat = 1"
    and "argsort_spec argsort"
    and "wf_frame k df"
    and "map_of df ''Node'' = Some n0"
    and "map_of df ''Lat'' = Some x0"
    and "map_of df ''Lon'' = Some y0"
    and "\<forall>v \<in> set x0. valid_latitude v"
  shows "\<exists>n x y d.
           sort_river_nodes argsort geodesic df sort_LonLat
             = Inr [(''Node'', n), (''Lat'', x), (''Lon'', y), (''Distance'', d)]
           \<and> length n = k \<and> length x = k \<and> length y = k \<and> length d = k
           \<and> (\<forall>i. Suc i < k \<longrightarrow> d ! i = geodesic (x ! Suc i, y ! Suc i) (x ! i, y ! i))
           \<and> (0 < k \<longrightarrow> d ! (k - 1) = 0)"
proof -
  define ks where "ks = (if sort_LonLat = 0 then y0 else x0)"
  define p where "p = argsort ks"
  have lens: "length n0 = k" "length x0 = k" "length y0 = k"
    using assms(3-6) by (auto dest: wf_frame_length)
  then have lk: "length ks = k" by (simp add: ks_def)
  then have lp: "length p = k" using argsort_spec_length [OF assms(2)] by (simp add: p_def)
  have valid: "\<forall>i \<in> set p. valid_latitude (x0 ! i)"
    unfolding p_def using assms(2) _ assms(7) by (rule argsort_rows_valid) (simp add: lens lk)
  have pdef: "p = argsort (if sort_LonLat = 0 then y0 else x0)" by (simp add: p_def ks_def)
  let ?x = "map (\<lambda>i. x0 ! i) p" and ?y = "map (\<lambda>i. y0 ! i) p"
  from sort_river_nodes_Inr [where argsort = argsort and geodesic = geodesic and p = p,
      OF assms(1) assms(4-6) pdef valid] obtain d where
    d: "sort_river_nodes argsort geodesic df sort_LonLat
          = Inr [(''Node'', map (\<lambda>i. n0 ! i) p), (''Lat'', ?x), (''Lon'', ?y), (''Distance'', d)]"
      "length d = length p"
      "\<forall>i. Suc i < length p \<longrightarrow>
          d ! i = geodesic (x0 ! (p ! Suc i), y0 ! (p ! Suc i)) (x0 ! (p ! i), y0 ! (p ! i))"
      "0 < length p \<longrightarrow> d ! (length p - 1) = 0"
    by blast
  have slots: "\<forall>i. Suc i < k \<longrightarrow> d ! i = geodesic (?x ! Suc i, ?y ! Suc i) (?x ! i, ?y ! i)"
    using d(3) lp by simp
  have final: "0 < k \<longrightarrow> d ! (k - 1) = 0" using d(4) lp by simp
  have l1: "length (map (\<lambda>i. n0 ! i) p) = k" and l2: "length ?x = k" and l3: "length ?y = k"
    and l4: "length d = k"
    using lp d(2) by simp_all
  from d(1) l1 l2 l3 l4 slots final show ?thesis by blast
qed

lemmas river_eval =
  sort_river_nodes_def sort_values_def getcol_def take_rows_def stable_argsort_def
  geodesic_meters_def valid_latitude_def taxicab_def upt_conv_Cons numeral_2_eq_2
  numeral_3_eq_3

theorem distance_slots_witness:
  "argsort_spec stable_argsort
   \<and> wf_frame 3 [(''Node'', [1, 2, 3]), (''Lat'', [10, 10, 10]), (''Lon'', [12, 10, 11])]
   \<and> sort_river_nodes stable_argsort taxicab
        [(''Node'', [1, 2, 3]), (''Lat'', [10, 10, 10]), (''Lon'', [12, 10, 11])] 0
      = Inr [(''Node'', [2, 3, 1]), (''Lat'', [10, 10, 10]), (''Lon'', [10, 11, 12]),
             (''Distance'', [1, 1, 0])]"
proof -
  let ?df = "[(''Node'', [1, 2, 3]), (''Lat'', [10, 10, 10]), (''Lon'', [12, 10, 11 :: real])]"
  have h1: "(0::int) = 0 \<or> (0::int) = 1" by simp
  have h3: "wf_frame 3 ?df" by (simp add: wf_frame_def)
  have h4: "map_of ?df ''Node'' = Some [1, 2, 3]" by simp
  have h5: "map_of ?df ''Lat'' = Some [10, 10, 10]" by simp
  have h6: "map_of ?df ''Lon'' = Some [12, 10, 11]" by simp
  have h7: "\<forall>v \<in> set [10, 10, 10 :: real]. valid_latitude v" by (simp add: valid_latitude_def)
  have run: "sort_river_nodes stable_argsort taxicab ?df 0
      = Inr [(''Node'', [2, 3, 1]), (''Lat'', [10, 10, 10]), (''Lon'', [10, 11, 12]),
             (''Distance'', [1, 1, 0])]"
    by (simp add: river_eval)
  show ?thesis
    using distance_slots [OF h1 stable_argsort_spec h3 h4 h5 h6 h7, of taxicab] run h3
      stable_argsort_spec
    by simp
qed

text \<open>
  Claim C5. For a table with the columns \<open>Node\<close>, \<open>Lat\<close> and \<open>Lon\<close> and latitudes within
  \<open>[-90, 90]\<close>: with selector 0 the \<open>Lon\<close> column of the result is sorted in
  non-decreasing order, with selector 1 the \<open>Lat\<close> column is. The witness shows a table
  whose other column comes out unsorted.
\<close>

theorem order_nodes_sorted:
  assumes "argsort_spec argsort"
    and "wf_frame k df"
    and "map_of df ''Node'' = Some n0"
    and "map_of df ''Lat'' = Some x0"
    and "map_of df ''Lon'' = Some y0"
    and "\<forall>v \<in> set x0. valid_latitude v"
  shows "(\<exists>out lon. sort_river_nodes argsort geodesic df 0 = Inr out
            \<and> getcol out ''Lon'' = Inr lon \<and> sorted lon)
       \<and> (\<exists>out lat. sort_river_nodes argsort geodesic df 1 = Inr out
            \<and> getcol out ''Lat'' = Inr lat \<and> sorted lat)"
proof (intro conjI)
  have lens: "length x0 = k" "length y0 = k"
    using assms(2,4,5) by (auto dest: wf_frame_length)
  have a: "(0::int) = 0 \<or> (0::int) = 1" by simp
  have p: "argsort y0 = argsort (if (0::int) = 0 then y0 else x0)" by simp
  have valid: "\<forall>i \<in> set (argsort y0). valid_latitude (x0 ! i)"
    using assms(1) _ assms(6) by (rule argsort_rows_valid) (simp add: lens)
  have "sorted (map (\<lambda>i. y0 ! i) (argsort y0))"
    using assms(1) by (simp add: argsort_spec_def)
  then show "\<exists>out lon. sort_river_nodes argsort geodesic df 0 = Inr out
            \<and> getcol out ''Lon'' = Inr lon \<and> sorted lon"
    using sort_river_nodes_Inr [where argsort = argsort and geodesic = geodesic
        and p = "argsort y0", OF a assms(3-5) p valid]
    by (auto simp: getcol_def)
next
  have lens: "length x0 = k" "length y0 = k"
    using assms(2,4,5) by (auto dest: wf_frame_length)
  have a: "(1::int) = 0 \<or> (1::int) = 1" by simp
  have p: "argsort x0 = argsort (if (1::int) = 0 then y0 else x0)" by simp
  have valid: "\<forall>i \<in> set (argsort x0). valid_latitude (x0 ! i)"
    using assms(1) _ assms(6) by (rule argsort_rows_valid) (simp add: lens)
  have "sorted (map (\<lambda>i. x0 ! i) (argsort x0))"
    using assms(1) by (simp add: argsort_spec_def)
  then show "\<exists>out lat. sort_river_nodes argsort geodesic df 1 = Inr out
            \<and> getcol out ''Lat'' = Inr lat \<and> sorted lat"
    using sort_river_nodes_Inr [where argsort = argsort and geodesic = geodesic
        and p = "argsort x0", OF a assms(3-5) p valid]
    by (auto simp: getcol_def)
qed

theorem order_nodes_sorted_witness:
  "argsort_spec stable_argsort
   \<and> wf_frame 3 [(''Node'', [1, 2, 3]), (''Lat'', [40, 42, 41]), (''Lon'', [12, 10, 11])]
   \<and> sort_river_nodes stable_argsort taxicab
        [(''Node'', [1, 2, 3]), (''Lat'', [40, 42, 41]), (''Lon'', [12, 10, 11])] 0
      = Inr [(''Node'', [2, 3, 1]), (''Lat'', [42, 41, 40]), (''Lon'', [10, 11, 12]),
             (''Distance'', [2, 2, 0])]
   \<and> sorted [10, 11, 12 :: real] \<and> \<not> sorted [42, 41, 40 :: real]"
proof -
  let ?df = "[(''Node'', [1, 2, 3]), (''Lat'', [40, 42, 41]), (''Lon'', [12, 10, 11 :: real])]"
  have h1: "wf_frame 3 ?df" by (simp add: wf_frame_def)
  have h2: "map_of ?df ''Node'' = Some [1, 2, 3]" by simp
  have h3: "map_of ?df ''Lat'' = Some [40, 42, 41]" by simp
  have h4: "map_of ?df ''Lon'' = Some [12, 10, 11]" by simp
  have h5: "\<forall>v \<in> set [40, 42, 41 :: real]. valid_latitude v" by (simp add: valid_latitude_def)
  have run: "sort_river_nodes stable_argsort taxicab ?df 0
      = Inr [(''Node'', [2, 3, 1]), (''Lat'', [42, 41, 40]), (''Lon'', [10, 11, 12]),
             (''Distance'', [2, 2, 0])]"
    by (simp add: river_eval)
  show ?thesis
    using order_nodes_sorted [OF stable_argsort_spec h1 h2 h3 h4 h5, of taxicab] run h1
      stable_argsort_spec
    by simp
qed

text \<open>
  Claim C10. A selector other than 0 and 1 gives \<open>ValueError\<close> whatever the columns of
  the table are, also when \<open>Node\<close>, \<open>Lat\<close> or \<open>Lon\<close> is missing; and a \<open>KeyError\<close> for a
  missing column is only ever the result under selector 0 or 1.
\<close>

theorem invalid_axis_first:
  "(sort_LonLat \<noteq> 0 \<and> sort_LonLat \<noteq> 1 \<longrightarrow>
      sort_river_nodes argsort geodesic df sort_LonLat = Inl ValueError)
   \<and> (sort_river_nodes argsort geodesic df sort_LonLat = Inl (KeyError c) \<longrightarrow>
      sort_LonLat = 0 \<or> sort_LonLat = 1)"
  by (auto simp: sort_river_nodes_def)

theorem invalid_axis_first_witness:
  "(2::int) \<noteq> 0 \<and> (2::int) \<noteq> 1
   \<and> sort_river_nodes stable_argsort taxicab [] 2 = Inl ValueError
   \<and> sort_river_nodes stable_argsort taxicab [] 0 = Inl (KeyError ''Lon'')
   \<and> sort_river_nodes stable_argsort taxicab [] 1 = Inl (KeyError ''Lat'')
   \<and> sort_river_nodes stable_argsort taxicab [(''Lon'', [3])] 0 = Inl (KeyError ''Lat'')"
proof -
  have "sort_river_nodes stable_argsort taxicab [] 0 = Inl (KeyError ''Lon'')"
    and "sort_river_nodes stable_argsort taxicab [] 1 = Inl (KeyError ''Lat'')"
    and "sort_river_nodes stable_argsort taxicab [(''Lon'', [3])] 0 = Inl (KeyError ''Lat'')"
    by (simp_all add: sort_river_nodes_def sort_values_def getcol_def take_rows_def)
  then show ?thesis
    using invalid_axis_first [of 2 stable_argsort taxicab "[]" "''Lon''"]
      invalid_axis_first [of 0 stable_argsort taxicab "[]" "''Lon''"]
    by simp
qed

text \<open>
  A sort that returns ascending keys with equal keys in reverse input order meets the
  library's promise.
\<close>

lemma reversed_ties_argsort_spec:
  "argsort_spec (\<lambda>ks. rev (sort_key (\<lambda>i. - (ks ! i)) [0..<length ks]))"
proof -
  have "sorted (map (\<lambda>i. ks ! i) (rev (sort_key (\<lambda>i. - (ks ! i)) [0..<length ks])))"
    for ks :: "real list"
  proof -
    let ?zs = "sort_key (\<lambda>i. - (ks ! i)) [0..<length ks]"
    have "sorted (map (\<lambda>i. - (ks ! i)) ?zs)" by simp
    then have "sorted_wrt (\<lambda>a b. ks ! b \<le> ks ! a) ?zs" by (simp add: sorted_map)
    then have "sorted_wrt (\<lambda>a b. ks ! a \<le> ks ! b) (rev ?zs)" by (simp add: sorted_wrt_rev)
    then show ?thesis by (simp add: sorted_map)
  qed
  then show ?thesis by (simp add: argsort_spec_def)
qed

text \<open>
  Claim C6, as stated, fails: \<open>sort_values\<close> is called with the default \<open>kind\<close>, for
  which the library promises ascending order and no stability, and the order it gives
  to equal keys differs between its builds. It is not so that every sort the library
  may use returns the four nodes with longitudes \<open>1, 1, 0, 0\<close> with both pairs of equal
  longitude in input order, that is as nodes \<open>3, 4, 1, 2\<close>.
\<close>

theorem ties_not_kept:
  "\<not> (\<forall>argsort. argsort_spec argsort \<longrightarrow>
         (\<exists>x y d. sort_river_nodes argsort taxicab
                    [(''Node'', [1, 2, 3, 4]), (''Lat'', [10, 20, 30, 40]), (''Lon'', [1, 1, 0, 0])] 0
                  = Inr [(''Node'', [3, 4, 1, 2]), (''Lat'', x), (''Lon'', y), (''Distance'', d)]))"
proof
  let ?rs = "\<lambda>ks :: real list. rev (sort_key (\<lambda>i. - (ks ! i)) [0..<length ks])"
  assume "\<forall>argsort. argsort_spec argsort \<longrightarrow>
         (\<exists>x y d. sort_river_nodes argsort taxicab
                    [(''Node'', [1, 2, 3, 4]), (''Lat'', [10, 20, 30, 40]), (''Lon'', [1, 1, 0, 0])] 0
                  = Inr [(''Node'', [3, 4, 1, 2]), (''Lat'', x), (''Lon'', y), (''Distance'', d)])"
  with reversed_ties_argsort_spec obtain x y d where
    "sort_river_nodes ?rs taxicab
       [(''Node'', [1, 2, 3, 4]), (''Lat'', [10, 20, 30, 40]), (''Lon'', [1, 1, 0, 0])] 0
     = Inr [(''Node'', [3, 4, 1, 2]), (''Lat'', x), (''Lon'', y), (''Distance'', d)]"
    by blast
  moreover have "sort_river_nodes ?rs taxicab
       [(''Node'', [1, 2, 3, 4]), (''Lat'', [10, 20, 30, 40]), (''Lon'', [1, 1, 0, 0])] 0
     = Inr [(''Node'', [4, 3, 2, 1]), (''Lat'', [40, 30, 20, 10]), (''Lon'', [0, 0, 1, 1]),
            (''Distance'', [10, 11, 10, 0])]"
    by (simp add: river_eval eval_nat_numeral)
  ultimately show False by simp
qed

text \<open>The rows of a table, as triples (node, latitude, longitude).\<close>

lemma zip3_map_nth:
  assumes "length n0 = k" and "length x0 = k" and "length y0 = k"
  shows "zip n0 (zip x0 y0) = map (\<lambda>i. (n0 ! i, x0 ! i, y0 ! i)) [0..<k]"
  using assms by (auto intro!: nth_equalityI)

lemma zip3_map_perm:
  "zip (map (\<lambda>i. n0 ! i) p) (zip (map (\<lambda>i. x0 ! i) p) (map (\<lambda>i. y0 ! i) p))
     = map (\<lambda>i. (n0 ! i, x0 ! i, y0 ! i)) p"
  by (induction p) auto

text \<open>
  Claim C6, amended. For a table with the columns \<open>Node\<close>, \<open>Lat\<close> and \<open>Lon\<close> and latitudes
  within \<open>[-90, 90]\<close>, the rows of the result are the rows of the input, each as often
  as in the input, in non-decreasing order of the chosen axis; and when the library's
  sort is stable, the rows with any one value on the chosen axis are in their input
  order.
\<close>

theorem order_nodes_ties:
  assumes "sort_LonLat = 0 \<or> sort_LonLat = 1"
    and "argsort_spec argsort"
    and "wf_frame k df"
    and "map_of df ''Node'' = Some n0"
    and "map_of df ''Lat'' = Some x0"
    and "map_of df ''Lon'' = Some y0"
    and "\<forall>v \<in> set x0. valid_latitude v"
  shows "\<exists>n x y d.
           sort_river_nodes argsort geodesic df sort_LonLat
             = Inr [(''Node'', n), (''Lat'', x), (''Lon'', y), (''Distance'', d)]
           \<and> mset (zip n (zip x y)) = mset (zip n0 (zip x0 y0))
           \<and> sorted (if sort_LonLat = 0 then y else x)
           \<and> (stable_spec argsort \<longrightarrow>
                (\<forall>v. filter (\<lambda>r. (if sort_LonLat = 0 then snd (snd r) else fst (snd r)) = v)
                        (zip n (zip x y))
                    = filter (\<lambda>r. (if sort_LonLat = 0 then snd (snd r) else fst (snd r)) = v)
                        (zip n0 (zip x0 y0))))"
proof -
  define ks where "ks = (if sort_LonLat = 0 then y0 else x0)"
  define p where "p = argsort ks"
  define row where "row = (\<lambda>i. (n0 ! i, x0 ! i, y0 ! i))"
  define key where "key = (\<lambda>r :: real \<times> real \<times> real. if sort_LonLat = 0 then snd (snd r) else fst (snd r))"
  have lens: "length n0 = k" "length x0 = k" "length y0 = k"
    using assms(3-6) by (auto dest: wf_frame_length)
  then have lk: "length ks = k" by (simp add: ks_def)
  have valid: "\<forall>i \<in> set p. valid_latitude (x0 ! i)"
    unfolding p_def using assms(2) _ assms(7) by (rule argsort_rows_valid) (simp add: lens lk)
  have pdef: "p = argsort (if sort_LonLat = 0 then y0 else x0)" by (simp add: p_def ks_def)
  let ?n = "map (\<lambda>i. n0 ! i) p" and ?x = "map (\<lambda>i. x0 ! i) p" and ?y = "map (\<lambda>i. y0 ! i) p"
  from sort_river_nodes_Inr [where argsort = argsort and geodesic = geodesic and p = p,
      OF assms(1) assms(4-6) pdef valid] obtain d where
    res: "sort_river_nodes argsort geodesic df sort_LonLat
          = Inr [(''Node'', ?n), (''Lat'', ?x), (''Lon'', ?y), (''Distance'', d)]"
    by blast
  have out: "zip ?n (zip ?x ?y) = map row p" by (simp add: zip3_map_perm row_def)
  have inp: "zip n0 (zip x0 y0) = map row [0..<k]"
    using zip3_map_nth [OF lens] by (simp add: row_def)
  have "mset p = mset [0..<k]"
    using assms(2) lk by (simp add: argsort_spec_def p_def)
  then have "mset (map row p) = mset (map row [0..<k])" by (metis mset_map)
  then have perm: "mset (zip ?n (zip ?x ?y)) = mset (zip n0 (zip x0 y0))"
    by (simp add: out inp)
  have "sorted (map (\<lambda>i. ks ! i) p)"
    using assms(2) by (simp add: argsort_spec_def p_def)
  then have srt: "sorted (if sort_LonLat = 0 then ?y else ?x)"
    by (cases "sort_LonLat = 0") (simp_all add: ks_def)
  have keyrow: "key (row i) = ks ! i" for i
    by (simp add: key_def row_def ks_def)
  have stable: "filter (\<lambda>r. key r = v) (zip ?n (zip ?x ?y)) = filter (\<lambda>r. key r = v) (zip n0 (zip x0 y0))"
    if st: "stable_spec argsort" for v
  proof -
    have "filter (\<lambda>i. ks ! i = v) p = filter (\<lambda>i. ks ! i = v) [0..<k]"
      using st lk by (simp add: stable_spec_def p_def)
    then have "map row (filter (\<lambda>i. ks ! i = v) p) = map row (filter (\<lambda>i. ks ! i = v) [0..<k])"
      by simp
    then show ?thesis
      by (simp add: out inp filter_map o_def keyrow)
  qed
  from res perm srt stable show ?thesis unfolding key_def by blast
qed

theorem order_nodes_ties_witness:
  "argsort_spec stable_argsort \<and> stable_spec stable_argsort
   \<and> wf_frame 3 [(''Node'', [1, 2, 3]), (''Lat'', [40, 41, 42]), (''Lon'', [5, 4, 5])]
   \<and> sort_river_nodes stable_argsort taxicab
        [(''Node'', [1, 2, 3]), (''Lat'', [40, 41, 42]), (''Lon'', [5, 4, 5])] 0
      = Inr [(''Node'', [2, 1, 3]), (''Lat'', [41, 40, 42]), (''Lon'', [4, 5, 5]),
             (''Distance'', [2, 2, 0])]"
proof -
  let ?df = "[(''Node'', [1, 2, 3]), (''Lat'', [40, 41, 42]), (''Lon'', [5, 4, 5 :: real])]"
  have h1: "(0::int) = 0 \<or> (0::int) = 1" by simp
  have h3: "wf_frame 3 ?df" by (simp add: wf_frame_def)
  have h4: "map_of ?df ''Node'' = Some [1, 2, 3]" by simp
  have h5: "map_of ?df ''Lat'' = Some [40, 41, 42]" by simp
  have h6: "map_of ?df ''Lon'' = Some [5, 4, 5]" by simp
  have h7: "\<forall>v \<in> set [40, 41, 42 :: real]. valid_latitude v" by (simp add: valid_latitude_def)
  have run: "sort_river_nodes stable_argsort taxicab ?df 0
      = Inr [(''Node'', [2, 1, 3]), (''Lat'', [41, 40, 42]), (''Lon'', [4, 5, 5]),
             (''Distance'', [2, 2, 0])]"
    by (simp add: river_eval)
  show ?thesis
    using order_nodes_ties [OF h1 stable_argsort_spec h3 h4 h5 h6 h7, of taxicab] run h3
      stable_argsort_spec stable_argsort_stable
    by simp
qed

section \<open>Properties of the nearest grid index\<close>

text \<open>
  The scan keeps, for the elements seen so far, the first position of their least
  element.
\<close>

lemma argmin_scan_first_min:
  assumes "b < length pre" and "v = pre ! b"
    and "\<forall>k < length pre. v \<le> pre ! k" and "\<forall>k < b. v < pre ! k"
  shows "argmin_scan xs (length pre) b v < length (pre @ xs)
       \<and> (\<forall>k < length (pre @ xs). (pre @ xs) ! argmin_scan xs (length pre) b v \<le> (pre @ xs) ! k)
       \<and> (\<forall>k < argmin_scan xs (length pre) b v.
             (pre @ xs) ! argmin_scan xs (length pre) b v < (pre @ xs) ! k)"
  using assms
proof (induction xs arbitrary: pre b v)
  case Nil
  then show ?case by simp
next
  case (Cons x xs)
  show ?case
  proof (cases "x < v")
    case True
    have 1: "length pre < length (pre @ [x])" by simp
    have 2: "x = (pre @ [x]) ! length pre" by simp
    have 3: "\<forall>k < length (pre @ [x]). x \<le> (pre @ [x]) ! k"
      using Cons.prems(3) True by (auto simp: nth_append less_Suc_eq)
    have 4: "\<forall>k < length pre. x < (pre @ [x]) ! k"
      using Cons.prems(3) True by (auto simp: nth_append)
    from Cons.IH [OF 1 2 3 4] True show ?thesis by simp
  next
    case False
    have 1: "b < length (pre @ [x])" using Cons.prems(1) by simp
    have 2: "v = (pre @ [x]) ! b" using Cons.prems(1,2) by (simp add: nth_append)
    have 3: "\<forall>k < length (pre @ [x]). v \<le> (pre @ [x]) ! k"
      using Cons.prems(3) False by (auto simp: nth_append less_Suc_eq)
    have 4: "\<forall>k < b. v < (pre @ [x]) ! k"
      using Cons.prems(1,4) by (auto simp: nth_append)
    from Cons.IH [OF 1 2 3 4] False show ?thesis by simp
  qed
qed

lemma argmin_first_min:
  assumes "xs \<noteq> []"
  shows "\<exists>r. argmin xs = Inr r \<and> r < length xs
           \<and> (\<forall>k < length xs. xs ! r \<le> xs ! k) \<and> (\<forall>k < r. xs ! r < xs ! k)"
proof -
  from assms obtain x rest where xs: "xs = x # rest" by (cases xs) auto
  have "argmin_scan rest (length [x]) 0 x < length ([x] @ rest)
       \<and> (\<forall>k < length ([x] @ rest). ([x] @ rest) ! argmin_scan rest (length [x]) 0 x \<le> ([x] @ rest) ! k)
       \<and> (\<forall>k < argmin_scan rest (length [x]) 0 x.
             ([x] @ rest) ! argmin_scan rest (length [x]) 0 x < ([x] @ rest) ! k)"
    by (rule argmin_scan_first_min) simp_all
  then show ?thesis by (simp add: xs argmin_def)
qed

text \<open>Two arrays of one shape are added element by element.\<close>

lemma broadcast_rev_same: "broadcast_rev s s = Some s"
  by (induction s) auto

lemma offset_unravel: "offset_rev ds (unravel_rev ds k) = k mod prod_list ds"
proof (induction ds arbitrary: k)
  case Nil
  then show ?case by simp
next
  case (Cons d ds)
  have "(if d = 1 then 0 else k mod d) = k mod d" by simp
  then show ?case by (simp add: Cons.IH mod_mult2_eq)
qed

lemma broadcast_to_same:
  assumes "wf_ndarray a"
  shows "broadcast_to a (shape a) = flat a"
proof -
  have "map (\<lambda>k. flat a ! (k mod prod_list (shape a))) [0..<prod_list (shape a)]
          = map (\<lambda>k. flat a ! k) [0..<prod_list (shape a)]"
    by (rule map_cong) auto
  also have "\<dots> = flat a" using assms map_nth [of "flat a"] by (simp add: wf_ndarray_def)
  finally show ?thesis by (simp add: broadcast_to_def offset_unravel)
qed

lemma nd_add_same:
  assumes "wf_ndarray a" and "wf_ndarray b" and "shape b = shape a"
  shows "nd_add rnd a b
           = Inr \<lparr>shape = shape a, flat = map2 (\<lambda>u v. rnd (u + v)) (flat a) (flat b)\<rparr>"
  using assms broadcast_to_same [of a] broadcast_to_same [of b]
  by (simp add: nd_add_def broadcast_rev_same)

lemma unravel_rev_snoc:
  "unravel_rev (ds @ [d]) k = unravel_rev ds k @ [(k div prod_list ds) mod d]"
  by (induction ds arbitrary: k) (simp_all add: div_mult2_eq)

lemma unravel_index_head:
  "\<exists>rest. unravel_index k (d # ds) = ((k div prod_list ds) mod d) # rest"
  by (simp add: unravel_index_def unravel_rev_snoc)


lemma computed_distances:
  assumes "length (flat glat) = length (flat glon)"
  shows "map (\<lambda>v. rnd (sqrt v))
           (map2 (\<lambda>u v. rnd (u + v)) (map (\<lambda>v. rnd ((rnd (v - fst q))\<^sup>2)) (flat glon))
              (map (\<lambda>v. rnd ((rnd (v - snd q))\<^sup>2)) (flat glat)))
           = map (computed_distance rnd glon glat q) [0..<length (flat glon)]"
  using assms by (auto intro!: nth_equalityI simp: computed_distance_def)

text \<open>
  With exact arithmetic the computed distance is the square root of the squared
  distance, and the two order the cells alike.
\<close>

lemma computed_distance_exact:
  assumes "\<forall>v. rnd v = v"
  shows "computed_distance rnd glon glat q k = sqrt (squared_distance glon glat q k)"
  using assms by (simp add: computed_distance_def squared_distance_def)

lemma nearest_dists:
  assumes sh: "shape glon = d # ds" "shape glat = d # ds"
    and wf: "wf_ndarray glon" "wf_ndarray glat"
  shows "nearest rnd glon glat (fst q) (snd q) =
           bind (argmin (map (computed_distance rnd glon glat q) [0..<prod_list (d # ds)]))
             (\<lambda>k. case unravel_index k (d # ds) of [] \<Rightarrow> Inl IndexError | i # rest \<Rightarrow> Inr i)"
proof -
  let ?a = "nd_map (\<lambda>v. rnd ((rnd (v - fst q))\<^sup>2)) glon"
    and ?b = "nd_map (\<lambda>v. rnd ((rnd (v - snd q))\<^sup>2)) glat"
  have len: "length (flat glon) = prod_list (d # ds)" "length (flat glat) = prod_list (d # ds)"
    using sh wf by (simp_all add: wf_ndarray_def)
  have wfa: "wf_ndarray ?a" and wfb: "wf_ndarray ?b" and shb: "shape ?b = shape ?a"
    using sh wf by (simp_all add: wf_ndarray_def nd_map_def)
  have add: "nd_add rnd ?a ?b
          = Inr \<lparr>shape = d # ds,
                 flat = map2 (\<lambda>u v. rnd (u + v)) (map (\<lambda>v. rnd ((rnd (v - fst q))\<^sup>2)) (flat glon))
                          (map (\<lambda>v. rnd ((rnd (v - snd q))\<^sup>2)) (flat glat))\<rparr>"
    using nd_add_same [OF wfa wfb shb, of rnd] sh by (simp add: nd_map_def)
  have cd: "map (\<lambda>v. rnd (sqrt v))
           (map2 (\<lambda>u v. rnd (u + v)) (map (\<lambda>v. rnd ((rnd (v - fst q))\<^sup>2)) (flat glon))
              (map (\<lambda>v. rnd ((rnd (v - snd q))\<^sup>2)) (flat glat)))
           = map (computed_distance rnd glon glat q) [0..<prod_list (d # ds)]"
    using computed_distances [of glat glon rnd q] len by simp
  show ?thesis
    unfolding nearest_def add using cd by (simp add: nd_map_def Let_def del: prod_list.Cons)
qed

lemma nearest_same_shape:
  assumes sh: "shape glon = d # ds" "shape glat = d # ds"
    and wf: "wf_ndarray glon" "wf_ndarray glat"
    and ne: "0 < prod_list (d # ds)"
  shows "\<exists>c. nearest rnd glon glat (fst q) (snd q) = Inr (c div prod_list ds)
           \<and> c < prod_list (d # ds)
           \<and> (\<forall>k < prod_list (d # ds).
                 computed_distance rnd glon glat q c \<le> computed_distance rnd glon glat q k)
           \<and> (\<forall>k < c. computed_distance rnd glon glat q c < computed_distance rnd glon glat q k)"
proof -
  let ?N = "prod_list (d # ds)"
  let ?dist = "map (computed_distance rnd glon glat q) [0..<?N]"
  have "?dist \<noteq> []" using ne by simp
  from argmin_first_min [OF this] obtain c where
    c: "argmin ?dist = Inr c" "c < length ?dist"
      "\<forall>k < length ?dist. ?dist ! c \<le> ?dist ! k" "\<forall>k < c. ?dist ! c < ?dist ! k"
    by blast
  have cN: "c < ?N" using c(2) by simp
  have le: "\<forall>k < ?N. computed_distance rnd glon glat q c \<le> computed_distance rnd glon glat q k"
    using c(3) cN by (auto simp del: prod_list.Cons)
  have lt: "\<forall>k < c. computed_distance rnd glon glat q c < computed_distance rnd glon glat q k"
    using c(4) cN by (auto simp del: prod_list.Cons)
  have "c div prod_list ds < d"
    using cN by (simp add: less_mult_imp_div_less mult.commute)
  then have hd: "\<exists>rest. unravel_index c (d # ds) = (c div prod_list ds) # rest"
    using unravel_index_head [of c d ds] by simp
  have "nearest rnd glon glat (fst q) (snd q) = Inr (c div prod_list ds)"
    unfolding nearest_dists [OF sh wf] using c(1) hd by auto
  with cN le lt show ?thesis by blast
qed

lemma nearest_empty_grid:
  assumes sh: "shape glon = d # ds" "shape glat = d # ds"
    and wf: "wf_ndarray glon" "wf_ndarray glat"
    and em: "prod_list (d # ds) = 0"
  shows "nearest rnd glon glat (fst q) (snd q) = Inl ValueError"
  unfolding nearest_dists [OF sh wf] em by (simp add: argmin_def)

lemma resolve_indices_cells:
  assumes sh: "shape glon = d # ds" "shape glat = d # ds"
    and wf: "wf_ndarray glon" "wf_ndarray glat"
    and ne: "0 < prod_list (d # ds)"
  shows "\<exists>cells. resolve_indices rnd glon glat queries = Inr (map (\<lambda>c. c div prod_list ds) cells)
           \<and> list_all2 (\<lambda>q c. c < prod_list (d # ds)
                \<and> (\<forall>k < prod_list (d # ds).
                      computed_distance rnd glon glat q c \<le> computed_distance rnd glon glat q k)
                \<and> (\<forall>k < c. computed_distance rnd glon glat q c < computed_distance rnd glon glat q k))
              queries cells"
proof (induction queries)
  case Nil
  show ?case by simp
next
  case (Cons q queries)
  from Cons.IH obtain cells where
    cells: "resolve_indices rnd glon glat queries = Inr (map (\<lambda>c. c div prod_list ds) cells)"
      "list_all2 (\<lambda>q c. c < prod_list (d # ds)
                \<and> (\<forall>k < prod_list (d # ds).
                      computed_distance rnd glon glat q c \<le> computed_distance rnd glon glat q k)
                \<and> (\<forall>k < c. computed_distance rnd glon glat q c < computed_distance rnd glon glat q k))
              queries cells"
    by blast
  from nearest_same_shape [OF sh wf ne, of rnd q] obtain c where
    c: "nearest rnd glon glat (fst q) (snd q) = Inr (c div prod_list ds)"
      "c < prod_list (d # ds)"
      "\<forall>k < prod_list (d # ds).
         computed_distance rnd glon glat q c \<le> computed_distance rnd glon glat q k"
      "\<forall>k < c. computed_distance rnd glon glat q c < computed_distance rnd glon glat q k"
    by blast
  have "resolve_indices rnd glon glat (q # queries)
          = Inr (map (\<lambda>c. c div prod_list ds) (c # cells))"
    using c(1) cells(1) by simp
  moreover have "list_all2 (\<lambda>q c. c < prod_list (d # ds)
                \<and> (\<forall>k < prod_list (d # ds).
                      computed_distance rnd glon glat q c \<le> computed_distance rnd glon glat q k)
                \<and> (\<forall>k < c. computed_distance rnd glon glat q c < computed_distance rnd glon glat q k))
              (q # queries) (c # cells)"
    using c(2-4) cells(2) by simp
  ultimately show ?case by blast
qed

text \<open>
  Claim C2, amended. For longitude and latitude arrays of one shape and any list of
  query points: when the grid has at least one cell, \<open>resolve_indices\<close> returns one
  index per query, in the order of the queries, nothing removed; for each query there
  is a cell, the first one in row-major order among those of least distance as line 82
  computes it (every operation rounded to the type of the arrays, so that cells at
  different distances can come out equal), whatever that distance is; with exact
  arithmetic it is a cell of least squared Euclidean distance in (longitude, latitude)
  coordinates; and the index returned is the position of that cell along the first
  axis, which for a one-dimensional grid is the cell itself. When the grid has no cell
  and there is a query, the run fails with the \<open>ValueError\<close> of \<open>np.argmin\<close>.
\<close>

theorem resolve_indices_nearest:
  assumes "shape glon = d # ds" and "shape glat = d # ds"
    and "wf_ndarray glon" and "wf_ndarray glat"
  shows "(0 < prod_list (d # ds) \<longrightarrow>
           (\<exists>cells. resolve_indices rnd glon glat queries
                      = Inr (map (\<lambda>c. c div prod_list ds) cells)
              \<and> (ds = [] \<longrightarrow> resolve_indices rnd glon glat queries = Inr cells)
              \<and> length cells = length queries
              \<and> (\<forall>j < length queries.
                    cells ! j < prod_list (d # ds)
                    \<and> (\<forall>k < prod_list (d # ds).
                          computed_distance rnd glon glat (queries ! j) (cells ! j)
                            \<le> computed_distance rnd glon glat (queries ! j) k)
                    \<and> (\<forall>k < cells ! j.
                          computed_distance rnd glon glat (queries ! j) (cells ! j)
                            < computed_distance rnd glon glat (queries ! j) k)
                    \<and> ((\<forall>v. rnd v = v) \<longrightarrow>
                         (\<forall>k < prod_list (d # ds).
                            squared_distance glon glat (queries ! j) (cells ! j)
                              \<le> squared_distance glon glat (queries ! j) k)))))
       \<and> (prod_list (d # ds) = 0 \<longrightarrow> queries \<noteq> [] \<longrightarrow>
            resolve_indices rnd glon glat queries = Inl ValueError)"
proof (intro conjI impI)
  assume ne: "0 < prod_list (d # ds)"
  from resolve_indices_cells [OF assms ne, of rnd queries] obtain cells where
    cells: "resolve_indices rnd glon glat queries = Inr (map (\<lambda>c. c div prod_list ds) cells)"
      "list_all2 (\<lambda>q c. c < prod_list (d # ds)
                \<and> (\<forall>k < prod_list (d # ds).
                      computed_distance rnd glon glat q c \<le> computed_distance rnd glon glat q k)
                \<and> (\<forall>k < c. computed_distance rnd glon glat q c < computed_distance rnd glon glat q k))
              queries cells"
    by blast
  have one: "ds = [] \<longrightarrow> resolve_indices rnd glon glat queries = Inr cells"
    using cells(1) by simp
  have len: "length cells = length queries"
    using cells(2) by (simp add: list_all2_lengthD)
  have each: "\<forall>j < length queries.
                 cells ! j < prod_list (d # ds)
                 \<and> (\<forall>k < prod_list (d # ds).
                       computed_distance rnd glon glat (queries ! j) (cells ! j)
                         \<le> computed_distance rnd glon glat (queries ! j) k)
                 \<and> (\<forall>k < cells ! j.
                       computed_distance rnd glon glat (queries ! j) (cells ! j)
                         < computed_distance rnd glon glat (queries ! j) k)"
    using cells(2) by (simp add: list_all2_conv_all_nth)
  have exact: "\<forall>j < length queries. (\<forall>v. rnd v = v) \<longrightarrow>
                 (\<forall>k < prod_list (d # ds).
                    squared_distance glon glat (queries ! j) (cells ! j)
                      \<le> squared_distance glon glat (queries ! j) k)"
  proof (intro allI impI)
    fix j k assume j: "j < length queries" and ex: "\<forall>v. rnd v = v" and k: "k < prod_list (d # ds)"
    from each j k have "computed_distance rnd glon glat (queries ! j) (cells ! j)
                         \<le> computed_distance rnd glon glat (queries ! j) k"
      by blast
    then show "squared_distance glon glat (queries ! j) (cells ! j)
                 \<le> squared_distance glon glat (queries ! j) k"
      by (simp add: computed_distance_exact [OF ex])
  qed
  show "\<exists>cells. resolve_indices rnd glon glat queries
                      = Inr (map (\<lambda>c. c div prod_list ds) cells)
              \<and> (ds = [] \<longrightarrow> resolve_indices rnd glon glat queries = Inr cells)
              \<and> length cells = length queries
              \<and> (\<forall>j < length queries.
                    cells ! j < prod_list (d # ds)
                    \<and> (\<forall>k < prod_list (d # ds).
                          computed_distance rnd glon glat (queries ! j) (cells ! j)
                            \<le> computed_distance rnd glon glat (queries ! j) k)
                    \<and> (\<forall>k < cells ! j.
                          computed_distance rnd glon glat (queries ! j) (cells ! j)
                            < computed_distance rnd glon glat (queries ! j) k)
                    \<and> ((\<forall>v. rnd v = v) \<longrightarrow>
                         (\<forall>k < prod_list (d # ds).
                            squared_distance glon glat (queries ! j) (cells ! j)
                              \<le> squared_distance glon glat (queries ! j) k)))"
    using cells(1) one len each exact by (intro exI [of _ cells]) blast
next
  assume em: "prod_list (d # ds) = 0" and q: "queries \<noteq> []"
  from q obtain q0 rest where "queries = q0 # rest" by (cases queries) auto
  then show "resolve_indices rnd glon glat queries = Inl ValueError"
    using nearest_empty_grid [OF assms em, of rnd q0] by simp
qed

text \<open>Square roots and definitions that evaluating the resolver on concrete grids meets.\<close>

lemma sqrt_9 [simp]: "sqrt 9 = 3"
  using real_sqrt_abs [of 3] by simp

lemma sqrt_16 [simp]: "sqrt 16 = 4"
  using real_sqrt_abs [of 4] by simp

lemmas resolve_eval =
  array1_def nearest_def nd_add_def nd_map_def broadcast_to_def argmin_def unravel_index_def
  upt_conv_Cons

theorem resolve_indices_nearest_witness:
  "wf_ndarray (array1 [0, 2, 4]) \<and> wf_ndarray (array1 [0, 0, 0])
   \<and> shape (array1 [0, 2, 4]) = [3] \<and> shape (array1 [0, 0, 0]) = [3]
   \<and> resolve_indices fl64 (array1 [0, 2, 4]) (array1 [0, 0, 0]) [(4, 0), (1, 0), (1, 0)]
        = Inr [2, 0, 0]"
proof -
  have h1: "shape (array1 [0, 2, 4]) = [3]" and h2: "shape (array1 [0, 0, 0]) = [3]"
    by (simp_all add: array1_def)
  have h3: "wf_ndarray (array1 [0, 2, 4])" and h4: "wf_ndarray (array1 [0, 0, 0])"
    by (simp_all add: array1_def wf_ndarray_def)
  have run: "resolve_indices fl64 (array1 [0, 2, 4]) (array1 [0, 0, 0])
               [(4, 0), (1, 0), (1, 0)] = Inr [2, 0, 0]"
    by (simp add: resolve_eval)
  show ?thesis
    using resolve_indices_nearest [OF h1 h2 h3 h4, of fl64 "[(4, 0), (1, 0), (1, 0)]"]
      h1 h2 h3 h4 run
    by simp
qed

text \<open>
  Two cells at longitude 1 and latitudes \<open>2^-26\<close> and 0, seen from \<open>(0, 0)\<close>: the squared
  distances \<open>1 + 2^-52\<close> and 1 are \<open>float64\<close> numbers, and the square roots of both round
  to 1.
\<close>

lemma fl64_inverse_2_26: "fl64 (1 / 2 ^ 26) = 1 / 2 ^ 26"
  using fl64_pow2_inverse [of 1 26] by simp

lemma fl64_inverse_2_52: "fl64 (1 / 2 ^ 52) = 1 / 2 ^ 52"
  using fl64_pow2_inverse [of 1 52] by simp

lemma fl64_one_plus_ulp: "fl64 (1 + 1 / 2 ^ 52) = 1 + 1 / 2 ^ 52"
proof -
  have "(1 + 1 / 2 ^ 52 :: real) = of_int (2 ^ 52 + 1) / 2 ^ 52" by (simp add: field_simps)
  moreover have "fl64 (of_int (2 ^ 52 + 1) / 2 ^ 52) = of_int (2 ^ 52 + 1) / 2 ^ 52"
    by (rule fl64_pow2_inverse) simp_all
  ultimately show ?thesis by (simp only:)
qed

lemma two_cells_distances:
  "computed_distance fl64 (array1 [1, 1]) (array1 [1 / 2 ^ 26, 0]) (0, 0) 0 = 1"
  "computed_distance fl64 (array1 [1, 1]) (array1 [1 / 2 ^ 26, 0]) (0, 0) (Suc 0) = 1"
proof -
  have sq: "((1::real) / 2 ^ 26)\<^sup>2 = 1 / 2 ^ 52"
    by (simp only: power_divide power_one power_mult [symmetric]) simp
  have "computed_distance fl64 (array1 [1, 1]) (array1 [1 / 2 ^ 26, 0]) (0, 0) 0
          = fl64 (sqrt (fl64 (fl64 ((fl64 1)\<^sup>2) + fl64 ((fl64 (1 / 2 ^ 26))\<^sup>2))))"
    by (simp only: computed_distance_def array1_def ndarray.simps nth_Cons_0 fst_conv snd_conv
        diff_zero)
  also have "\<dots> = fl64 (sqrt (fl64 (1 + 1 / 2 ^ 52)))"
    by (simp only: fl64_one fl64_inverse_2_26 sq fl64_inverse_2_52 power_one)
  also have "\<dots> = 1"
    by (simp only: fl64_one_plus_ulp fl64_sqrt_above_one)
  finally show "computed_distance fl64 (array1 [1, 1]) (array1 [1 / 2 ^ 26, 0]) (0, 0) 0 = 1" .
  show "computed_distance fl64 (array1 [1, 1]) (array1 [1 / 2 ^ 26, 0]) (0, 0) (Suc 0) = 1"
    by (simp add: computed_distance_def array1_def)
qed


lemma two_cells_resolve:
  "resolve_indices fl64 (array1 [1, 1]) (array1 [1 / 2 ^ 26, 0]) [(0, 0)] = Inr [0]"
proof -
  let ?lon = "array1 [1, 1]" and ?lat = "array1 [1 / 2 ^ 26, 0]"
  have sh: "shape ?lon = 2 # []" "shape ?lat = 2 # []" by (simp_all add: array1_def)
  have wf: "wf_ndarray ?lon" "wf_ndarray ?lat" by (simp_all add: array1_def wf_ndarray_def)
  have idx: "[0..<prod_list [2::nat]] = [0, Suc 0]" by (simp add: upt_conv_Cons)
  have m: "map (computed_distance fl64 ?lon ?lat (0, 0)) [0..<prod_list [2::nat]] = [1, 1]"
    by (simp only: idx list.map two_cells_distances)
  from nearest_dists [OF sh wf, of fl64 "(0, 0)"] m
  have "nearest fl64 ?lon ?lat 0 0 = Inr 0"
    by (simp add: argmin_def unravel_index_def)
  then show ?thesis by simp
qed

text \<open>
  Claim C2, as stated, fails. On a grid of two rows and two columns the nearest cell of
  the query \<open>(3, 0)\<close> is the cell at flat position 3, at distance 0; the index returned
  is 1, the row of that cell, and the cell at flat position 1 is at squared distance 4.
  On an empty grid no match is returned for a query: \<open>np.argmin\<close> raises. And on the
  one-dimensional grid of the two cells above, in \<open>float64\<close> arithmetic, the index
  returned for the query \<open>(0, 0)\<close> is 0 although cell 1 is at a smaller squared
  distance: the computed distances are equal and the first cell wins.
\<close>

theorem resolve_indices_not_nearest:
  "resolve_indices fl64 \<lparr>shape = [2, 2], flat = [0, 1, 2, 3]\<rparr>
       \<lparr>shape = [2, 2], flat = [0, 0, 0, 0]\<rparr> [(3, 0)] = Inr [1]
   \<and> squared_distance \<lparr>shape = [2, 2], flat = [0, 1, 2, 3]\<rparr>
        \<lparr>shape = [2, 2], flat = [0, 0, 0, 0]\<rparr> (3, 0) 3 = 0
   \<and> squared_distance \<lparr>shape = [2, 2], flat = [0, 1, 2, 3]\<rparr>
        \<lparr>shape = [2, 2], flat = [0, 0, 0, 0]\<rparr> (3, 0) 1 = 4
   \<and> resolve_indices fl64 (array1 []) (array1 []) [(3, 0)] = Inl ValueError
   \<and> resolve_indices fl64 (array1 [1, 1]) (array1 [1 / 2 ^ 26, 0]) [(0, 0)] = Inr [0]
   \<and> squared_distance (array1 [1, 1]) (array1 [1 / 2 ^ 26, 0]) (0, 0) 1
        < squared_distance (array1 [1, 1]) (array1 [1 / 2 ^ 26, 0]) (0, 0) 0"
proof -
  have a: "resolve_indices fl64 \<lparr>shape = [2, 2], flat = [0, 1, 2, 3]\<rparr>
       \<lparr>shape = [2, 2], flat = [0, 0, 0, 0]\<rparr> [(3, 0)] = Inr [1]"
    by (simp add: resolve_eval)
  have b: "squared_distance \<lparr>shape = [2, 2], flat = [0, 1, 2, 3]\<rparr>
        \<lparr>shape = [2, 2], flat = [0, 0, 0, 0]\<rparr> (3, 0) 3 = 0"
    and c: "squared_distance \<lparr>shape = [2, 2], flat = [0, 1, 2, 3]\<rparr>
        \<lparr>shape = [2, 2], flat = [0, 0, 0, 0]\<rparr> (3, 0) 1 = 4"
    by (simp_all add: squared_distance_def eval_nat_numeral)
  have d: "resolve_indices fl64 (array1 []) (array1 []) [(3, 0)] = Inl ValueError"
    by (simp add: resolve_eval)
  have e: "squared_distance (array1 [1, 1]) (array1 [1 / 2 ^ 26, 0]) (0, 0) 1
        < squared_distance (array1 [1, 1]) (array1 [1 / 2 ^ 26, 0]) (0, 0) 0"
    by (simp add: squared_distance_def array1_def)
  from a b c d two_cells_resolve e show ?thesis by (intro conjI)
qed

section \<open>Properties of the subset writer\<close>

text \<open>Indexing inside the range succeeds and reads the position counted from the front.\<close>

lemma item_in_range:
  assumes "- int (length xs) \<le> i" and "i < int (length xs)"
  shows "item xs i = Inr (xs ! nat (position (length xs) i))"
  using assms by (simp add: item_def position_def Let_def)

lemma item_nat:
  assumes "n < length xs"
  shows "item xs (int n) = Inr (xs ! n)"
  using assms by (simp add: item_def position_def)

lemma index_all_in_range:
  assumes "\<forall>i \<in> set is. - int (length xs) \<le> i \<and> i < int (length xs)"
  shows "index_all xs is = Inr (map (\<lambda>i. xs ! nat (position (length xs) i)) is)"
  using assms by (induction "is") (simp_all add: item_in_range)

lemma index_all_nat:
  assumes "\<forall>n \<in> set ns. n < length xs"
  shows "index_all xs (map int ns) = Inr (map (\<lambda>n. xs ! n) ns)"
  using assms by (induction ns) (simp_all add: item_nat)

lemma cube_slab:
  assumes "cube t n l v" and "k < t"
  shows "length (v ! k) = n"
  using assms by (auto simp: cube_def list_all_length)

lemma read_slice_in_range:
  assumes "cube t n l v"
    and "- int t \<le> i" and "i < int t"
    and "\<forall>k \<in> set idx. k < n"
    and "idx \<noteq> []"
  shows "read_slice v i idx = Inr (map (\<lambda>k. v ! nat (position t i) ! k) idx)"
proof -
  have len: "length v = t" using assms(1) by (simp add: cube_def)
  have "nat (position t i) < t" using assms(2,3) by (auto simp: position_def)
  then have "length (v ! nat (position t i)) = n" using assms(1) by (rule cube_slab [rotated])
  then show ?thesis
    using assms(2-5) len by (simp add: read_slice_def item_in_range index_all_nat)
qed

text \<open>
  The passes of the loop, when every selected time index and every node index is in
  range and there is a node: slot \<open>i\<close> and the slots after it receive the slices of the selected times, one
  after the other, and the slots before \<open>i\<close> are left as they are.
\<close>

lemma run_steps_append:
  "run_steps (a @ b) new =
     (case run_steps a new of (None, new') \<Rightarrow> run_steps b new' | (Some e, new') \<Rightarrow> (Some e, new'))"
  by (induction a arbitrary: new) (auto split: sum.splits)

lemma copy_slices_in_range:
  assumes "cube t n l (salinity ds)" and "cube t n l (temperature ds)"
    and "\<forall>i \<in> set ts. - int t \<le> i \<and> i < int t"
    and "\<forall>k \<in> set idx. k < n"
    and "idx \<noteq> []"
    and "i + length ts \<le> length (salinity new)"
    and "i + length ts \<le> length (temperature new)"
  shows "run_steps (copy_slices cast ds idx i ts) new =
           (None, new\<lparr>salinity :=
                         take i (salinity new)
                           @ map (\<lambda>t'. map (\<lambda>k. map (cast Float32) (salinity ds ! nat (position t t') ! k)) idx) ts
                           @ drop (i + length ts) (salinity new),
                       temperature :=
                         take i (temperature new)
                           @ map (\<lambda>t'. map (\<lambda>k. map (cast Float32) (temperature ds ! nat (position t t') ! k)) idx) ts
                           @ drop (i + length ts) (temperature new)\<rparr>)"
  using assms(3,6,7)
proof (induction ts arbitrary: i new)
  case Nil
  then show ?case by simp
next
  case (Cons t' ts)
  let ?s = "map (\<lambda>k. map (cast Float32) (salinity ds ! nat (position t t') ! k)) idx"
  let ?u = "map (\<lambda>k. map (cast Float32) (temperature ds ! nat (position t t') ! k)) idx"
  let ?new = "new\<lparr>salinity := (salinity new)[i := ?s], temperature := (temperature new)[i := ?u]\<rparr>"
  have rng: "- int t \<le> t'" "t' < int t" using Cons.prems(1) by simp_all
  have rs: "read_slice (salinity ds) t' idx = Inr (map (\<lambda>k. salinity ds ! nat (position t t') ! k) idx)"
    using read_slice_in_range [OF assms(1) rng assms(4,5)] .
  have ru: "read_slice (temperature ds) t' idx = Inr (map (\<lambda>k. temperature ds ! nat (position t t') ! k) idx)"
    using read_slice_in_range [OF assms(2) rng assms(4,5)] .
  have step: "run_steps (copy_slice cast ds idx i t') new = (None, ?new)"
    by (simp add: copy_slice_def rs ru o_def)
  have il: "i < length (salinity new)" "i < length (temperature new)"
    using Cons.prems(2,3) by simp_all
  have p1: "\<forall>i \<in> set ts. - int t \<le> i \<and> i < int t" using Cons.prems(1) by simp
  have p2: "Suc i + length ts \<le> length (salinity ?new)" using Cons.prems(2) by simp
  have p3: "Suc i + length ts \<le> length (temperature ?new)" using Cons.prems(3) by simp
  have ts1: "take (Suc i) ((salinity new)[i := ?s]) = take i (salinity new) @ [?s]"
    using il(1) by (simp add: take_Suc_conv_app_nth)
  have ts2: "take (Suc i) ((temperature new)[i := ?u]) = take i (temperature new) @ [?u]"
    using il(2) by (simp add: take_Suc_conv_app_nth)
  show ?case
    using Cons.IH [OF p1 p2 p3] step ts1 ts2
    by (simp add: run_steps_append)
qed


text \<open>The dataset that a run without error writes.\<close>

lemma write_dataset_ok:
  assumes wf: "wf_dataset t n l ds"
    and u: "map_of (units ds) ''time'' = Some u"
    and ts: "\<forall>i \<in> set ts. - int t \<le> i \<and> i < int t"
    and idx: "\<forall>k \<in> set idx. k < n"
    and ne: "idx \<noteq> []"
  shows "write_dataset cast ds idx True ts =
           (None,
            \<lparr>dimensions = [(''node'', length idx), (''level'', l), (''time'', length ts)],
             declared = subset_variables,
             units = [(''time'', u), (''latitude'', ''degrees_north''),
                      (''longitude'', ''degrees_east''), (''level'', ''meters''),
                      (''total_depth'', ''meters'')],
             longitude = map (\<lambda>k. cast Float64 (longitude ds ! k)) idx,
             latitude = map (\<lambda>k. cast Float64 (latitude ds ! k)) idx,
             level = map (cast Float32) (level ds),
             total_depth = map (\<lambda>k. cast Float32 (total_depth ds ! k)) idx,
             time = map (\<lambda>i. cast Float64 (time ds ! nat (position t i))) ts,
             salinity =
               map (\<lambda>t'. map (\<lambda>k. map (cast Float32) (salinity ds ! nat (position t t') ! k)) idx) ts,
             temperature =
               map (\<lambda>t'. map (\<lambda>k. map (cast Float32) (temperature ds ! nat (position t t') ! k)) idx) ts\<rparr>)"
proof -
  have len: "length (longitude ds) = n" "length (latitude ds) = n" "length (total_depth ds) = n"
    "length (level ds) = l" "length (time ds) = t"
    and cs: "cube t n l (salinity ds)" and ct: "cube t n l (temperature ds)"
    using wf by (simp_all add: wf_dataset_def)
  have lon: "index_all (longitude ds) (map int idx) = Inr (map (\<lambda>k. longitude ds ! k) idx)"
    and lat: "index_all (latitude ds) (map int idx) = Inr (map (\<lambda>k. latitude ds ! k) idx)"
    and dep: "index_all (total_depth ds) (map int idx) = Inr (map (\<lambda>k. total_depth ds ! k) idx)"
    using idx len by (simp_all add: index_all_nat)
  have tim: "index_all (time ds) ts = Inr (map (\<lambda>i. time ds ! nat (position t i)) ts)"
    using index_all_in_range [of ts "time ds"] ts len by simp
  let ?new = "allocate (length idx) (length (level ds)) (length ts)
                \<lparr>units := [(''time'', u), (''latitude'', ''degrees_north''),
                      (''longitude'', ''degrees_east''), (''level'', ''meters''),
                      (''total_depth'', ''meters'')],
                 longitude := map (cast Float64) (map (\<lambda>k. longitude ds ! k) idx),
                 latitude := map (cast Float64) (map (\<lambda>k. latitude ds ! k) idx),
                 level := map (cast Float32) (level ds),
                 total_depth := map (cast Float32) (map (\<lambda>k. total_depth ds ! k) idx),
                 time := map (cast Float64) (map (\<lambda>i. time ds ! nat (position t i)) ts)\<rparr>"
  have first: "run_steps (set_units ds # copy_variables cast ds idx True ts)
                 (allocate (length idx) (length (level ds)) (length ts)) = (None, ?new)"
    by (simp add: set_units_def u copy_variables_def lon lat dep tim)
  have l1: "0 + length ts \<le> length (salinity ?new)" and l2: "0 + length ts \<le> length (temperature ?new)"
    by (simp_all add: allocate_def)
  have loop: "run_steps (copy_slices cast ds idx 0 ts) ?new =
           (None, ?new\<lparr>salinity :=
                         take 0 (salinity ?new)
                           @ map (\<lambda>t'. map (\<lambda>k. map (cast Float32) (salinity ds ! nat (position t t') ! k)) idx) ts
                           @ drop (0 + length ts) (salinity ?new),
                       temperature :=
                         take 0 (temperature ?new)
                           @ map (\<lambda>t'. map (\<lambda>k. map (cast Float32) (temperature ds ! nat (position t t') ! k)) idx) ts
                           @ drop (0 + length ts) (temperature ?new)\<rparr>)"
    by (rule copy_slices_in_range [OF cs ct ts idx ne l1 l2])
  have "write_dataset cast ds idx True ts = run_steps (copy_slices cast ds idx 0 ts) ?new"
    using first run_steps_append [of "set_units ds # copy_variables cast ds idx True ts"
        "copy_slices cast ds idx 0 ts" "allocate (length idx) (length (level ds)) (length ts)"]
    by (simp add: write_dataset_def)
  then show ?thesis
    unfolding loop by (simp add: allocate_def len o_def)
qed

section \<open>Properties of the subset as a whole\<close>

text \<open>
  On the node-indexed coordinates of a source with at least one node every index found
  is a node of the source.
\<close>

lemma resolve_indices_1d:
  assumes "length glon = n" and "length glat = n" and "0 < n"
  shows "\<exists>idx. resolve_indices rnd (array1 glon) (array1 glat) queries = Inr idx
           \<and> length idx = length queries
           \<and> (\<forall>k \<in> set idx. k < n)"
proof -
  have sh: "shape (array1 glon) = n # []" "shape (array1 glat) = n # []"
    using assms(1,2) by (simp_all add: array1_def)
  have wf: "wf_ndarray (array1 glon)" "wf_ndarray (array1 glat)"
    by (simp_all add: array1_def wf_ndarray_def)
  have ne: "0 < prod_list (n # [])" using assms(3) by simp
  from resolve_indices_cells [OF sh wf ne, of rnd queries] obtain cells where
    cells: "resolve_indices rnd (array1 glon) (array1 glat) queries
              = Inr (map (\<lambda>c. c div prod_list []) cells)"
      "list_all2 (\<lambda>q c. c < prod_list [n]
                \<and> (\<forall>k < prod_list [n].
                      computed_distance rnd (array1 glon) (array1 glat) q c
                        \<le> computed_distance rnd (array1 glon) (array1 glat) q k)
                \<and> (\<forall>k < c. computed_distance rnd (array1 glon) (array1 glat) q c
                        < computed_distance rnd (array1 glon) (array1 glat) q k))
              queries cells"
    by blast
  have r: "resolve_indices rnd (array1 glon) (array1 glat) queries = Inr cells"
    using cells(1) by simp
  have len: "length cells = length queries"
    using cells(2) by (simp add: list_all2_lengthD)
  have each: "\<forall>j < length queries. cells ! j < n"
    using cells(2) by (simp add: list_all2_conv_all_nth)
  have bound: "\<forall>k \<in> set cells. k < n"
    using each len by (auto simp: in_set_conv_nth)
  from r len bound show ?thesis by blast
qed







text \<open>The definitions that evaluating the writer on a concrete source unfolds.\<close>

lemmas writer_eval =
  write_subset_def write_dataset_def set_units_def copy_variables_def copy_slice_def
  read_slice_def item_def position_def allocate_def array1_def nearest_def nd_add_def
  nd_map_def broadcast_to_def argmin_def unravel_index_def exact_cast_def upt_conv_Cons

text \<open>
  Where ordering and selection succeed and the selection is an array of integers,
  \<open>create_subset_nc\<close> is \<open>write_subset\<close> on the ordered nodes and the selected time steps.
\<close>

lemma create_subset_nc_write_subset:
  assumes "sort_river_nodes argsort geodesic river_file sort_LonLat = Inr river_nodes"
    and "getcol river_nodes ''Lon'' = Inr river_lons"
    and "getcol river_nodes ''Lat'' = Inr river_lats"
    and "select_time_steps (int (length (time nc_file))) time_steps save_frequency = Inr selected"
    and "integer_array time_steps save_frequency"
  shows "create_subset_nc argsort geodesic rnd cast nc_file river_file sort_LonLat output_file
           time_steps save_frequency fs
         = write_subset rnd cast nc_file (zip river_lons river_lats) selected output_file fs"
  using assms by (simp add: create_subset_nc_def write_subset_def split: sum.splits prod.splits)

text \<open>
  Claim C1. For a source whose variables have the sizes of its dimensions (\<open>n\<close> nodes,
  \<open>l\<close> levels, \<open>t\<close> time steps, at least one node, a \<open>units\<close> attribute on \<open>time\<close>), any
  list of at least one query point (with no node to read, the first slice raises) and
  any selection of time indices within the range of the source (negative ones counting
  from the end), \<open>write_subset\<close> ends without error and leaves at the destination a
  dataset with the dimensions node = number of indices in the mapping (one per query),
  level = \<open>l\<close>, time = length of the selection. Its salinity and temperature at output
  time slot \<open>i\<close> are the source's at the \<open>i\<close>-th selected time index, restricted to the
  mapped nodes in the order of the mapping, all levels, cast to single precision;
  longitude, latitude and total depth are the source's at the mapped nodes in that
  order, the times those at the selected indices, the levels the source's levels, each
  cast to the type of its variable.
\<close>

theorem write_subset_contents:
  assumes "wf_dataset t n l ds"
    and "map_of (units ds) ''time'' = Some u"
    and "0 < n"
    and "queries \<noteq> []"
    and "\<forall>i \<in> set tsel. - int t \<le> i \<and> i < int t"
  shows "\<exists>idx new.
           resolve_indices rnd (array1 (longitude ds)) (array1 (latitude ds)) queries = Inr idx
           \<and> write_subset rnd cast ds queries tsel out fs = (None, fs(out \<mapsto> new))
           \<and> length idx = length queries
           \<and> dimensions new = [(''node'', length idx), (''level'', l), (''time'', length tsel)]
           \<and> length (salinity new) = length tsel
           \<and> length (temperature new) = length tsel
           \<and> (\<forall>i < length tsel.
                 salinity new ! i
                   = map (\<lambda>k. map (cast Float32) (salinity ds ! nat (position t (tsel ! i)) ! k)) idx
                 \<and> temperature new ! i
                   = map (\<lambda>k. map (cast Float32) (temperature ds ! nat (position t (tsel ! i)) ! k)) idx)
           \<and> longitude new = map (\<lambda>k. cast Float64 (longitude ds ! k)) idx
           \<and> latitude new = map (\<lambda>k. cast Float64 (latitude ds ! k)) idx
           \<and> total_depth new = map (\<lambda>k. cast Float32 (total_depth ds ! k)) idx
           \<and> time new = map (\<lambda>i. cast Float64 (time ds ! nat (position t i))) tsel
           \<and> level new = map (cast Float32) (level ds)"
proof -
  have len: "length (longitude ds) = n" "length (latitude ds) = n"
    using assms(1) by (simp_all add: wf_dataset_def)
  from resolve_indices_1d [OF len assms(3), of rnd queries] obtain idx where
    idx: "resolve_indices rnd (array1 (longitude ds)) (array1 (latitude ds)) queries = Inr idx"
      "length idx = length queries" "\<forall>k \<in> set idx. k < n"
    by blast
  have ne: "idx \<noteq> []" using idx(2) assms(4) by auto
  let ?new = "\<lparr>dimensions = [(''node'', length idx), (''level'', l), (''time'', length tsel)],
             declared = subset_variables,
             units = [(''time'', u), (''latitude'', ''degrees_north''),
                      (''longitude'', ''degrees_east''), (''level'', ''meters''),
                      (''total_depth'', ''meters'')],
             longitude = map (\<lambda>k. cast Float64 (longitude ds ! k)) idx,
             latitude = map (\<lambda>k. cast Float64 (latitude ds ! k)) idx,
             level = map (cast Float32) (level ds),
             total_depth = map (\<lambda>k. cast Float32 (total_depth ds ! k)) idx,
             time = map (\<lambda>i. cast Float64 (time ds ! nat (position t i))) tsel,
             salinity =
               map (\<lambda>t'. map (\<lambda>k. map (cast Float32) (salinity ds ! nat (position t t') ! k)) idx) tsel,
             temperature =
               map (\<lambda>t'. map (\<lambda>k. map (cast Float32) (temperature ds ! nat (position t t') ! k)) idx) tsel\<rparr>"
  have w: "write_dataset cast ds idx True tsel = (None, ?new)"
    by (rule write_dataset_ok [OF assms(1,2,5) idx(3) ne])
  have ws: "write_subset rnd cast ds queries tsel out fs = (None, fs(out \<mapsto> ?new))"
    by (simp add: write_subset_def idx(1) w)
  have slabs: "\<forall>i < length tsel.
                 salinity ?new ! i
                   = map (\<lambda>k. map (cast Float32) (salinity ds ! nat (position t (tsel ! i)) ! k)) idx
                 \<and> temperature ?new ! i
                   = map (\<lambda>k. map (cast Float32) (temperature ds ! nat (position t (tsel ! i)) ! k)) idx"
    by simp
  show ?thesis
    apply (rule exI [of _ idx])
    apply (rule exI [of _ ?new])
    using idx(1,2) ws slabs by simp
qed

theorem write_subset_contents_witness:
  "wf_dataset 2 3 1 three_nodes
   \<and> map_of (units three_nodes) ''time'' = Some ''seconds''
   \<and> resolve_indices fl64 (array1 (longitude three_nodes)) (array1 (latitude three_nodes))
        [(2, 0), (0, 0)] = Inr [2, 0]
   \<and> fst (write_subset fl64 exact_cast three_nodes [(2, 0), (0, 0)] [1, 0, - 1] ''subset.nc''
             Map.empty) = None
   \<and> snd (write_subset fl64 exact_cast three_nodes [(2, 0), (0, 0)] [1, 0, - 1] ''subset.nc''
             Map.empty) ''subset.nc''
      = Some (
            \<lparr>dimensions = [(''node'', 2), (''level'', 1), (''time'', 3)],
             declared = subset_variables,
             units = [(''time'', ''seconds''), (''latitude'', ''degrees_north''),
                      (''longitude'', ''degrees_east''), (''level'', ''meters''),
                      (''total_depth'', ''meters'')],
             longitude = [2, 0],
             latitude = [0, 0],
             level = [5],
             total_depth = [9, 7],
             time = [200, 100, 200],
             salinity = [[[6], [4]], [[3], [1]], [[6], [4]]],
             temperature = [[[16], [14]], [[13], [11]], [[16], [14]]]\<rparr>)"
proof -
  have h1: "wf_dataset 2 3 1 three_nodes"
    by (simp add: wf_dataset_def cube_def three_nodes_def)
  have h2: "map_of (units three_nodes) ''time'' = Some ''seconds''"
    by (simp add: three_nodes_def)
  have h3: "(0::nat) < 3" by simp
  have h4: "[(2, 0), (0, 0)] \<noteq> ([]::(real \<times> real) list)" by simp
  have h5: "\<forall>i \<in> set [1, 0, - 1]. - int 2 \<le> i \<and> i < int 2" by simp
  have r: "resolve_indices fl64 (array1 (longitude three_nodes)) (array1 (latitude three_nodes))
        [(2, 0), (0, 0)] = Inr [2, 0]"
    by (simp add: three_nodes_def writer_eval)
  have w: "fst (write_subset fl64 exact_cast three_nodes [(2, 0), (0, 0)] [1, 0, - 1] ''subset.nc''
             Map.empty) = None
   \<and> snd (write_subset fl64 exact_cast three_nodes [(2, 0), (0, 0)] [1, 0, - 1] ''subset.nc''
             Map.empty) ''subset.nc''
      = Some (
            \<lparr>dimensions = [(''node'', 2), (''level'', 1), (''time'', 3)],
             declared = subset_variables,
             units = [(''time'', ''seconds''), (''latitude'', ''degrees_north''),
                      (''longitude'', ''degrees_east''), (''level'', ''meters''),
                      (''total_depth'', ''meters'')],
             longitude = [2, 0],
             latitude = [0, 0],
             level = [5],
             total_depth = [9, 7],
             time = [200, 100, 200],
             salinity = [[[6], [4]], [[3], [1]], [[6], [4]]],
             temperature = [[[16], [14]], [[13], [11]], [[16], [14]]]\<rparr>)"
    unfolding write_subset_def r by (simp add: three_nodes_def writer_eval)
  show ?thesis
    using write_subset_contents [OF h1 h2 h3 h4 h5, of fl64 exact_cast "''subset.nc''" Map.empty]
      h1 h2 r w
    by simp
qed




end
